theory Spec2Isabelle
  imports Complex_Main "HOL-Library.Word" "HOL-Library.Log_Nat"
begin

section \<open>Descriptors of the vectorized pipeline\<close>

text \<open>
  Modelled from the spec: the enumerations \<^verbatim>\<open>mlir::daphne::VectorSplit\<close> and
  \<^verbatim>\<open>mlir::daphne::VectorCombine\<close>, which \<^verbatim>\<open>MTWrapper.h\<close> uses and \<^verbatim>\<open>ir/daphneir/Daphne.h\<close>,
  not among the sources, declares. Their members are prefixed here because both have
  a member \<^verbatim>\<open>ROWS\<close> and a member \<^verbatim>\<open>NONE\<close>.
\<close>

datatype VectorSplit = Split_NONE | Split_ROWS

datatype VectorCombine = Combine_ROWS | Combine_COLS | Combine_ADD | Combine_NONE

type_synonym size_t = "64 word"
type_synonym uint32_t = "32 word"

text \<open>
  The ways in which the modelled code stops the program, leaves a function by an
  exception or leaves defined behaviour: \<^verbatim>\<open>numCells % numRows\<close> with \<^verbatim>\<open>numRows == 0\<close>
  divides by zero; an \<^verbatim>\<open>assert\<close> fails; an array or vector is indexed outside its
  bounds; a null pointer is passed to a library function that reads through it; an
  allocation throws (\<^verbatim>\<open>std::bad_array_new_length\<close>, \<^verbatim>\<open>std::bad_alloc\<close>).
\<close>

datatype failure = DivisionByZero | AssertionFailed | OutOfBounds | NullPointer | AllocationFailed

section \<open>Output allocation: \<^verbatim>\<open>MTWrapperBase::allocateOutput\<close>\<close>

text \<open>
  \<^verbatim>\<open>outRows\<close> and \<^verbatim>\<open>outCols\<close> are arrays of \<^verbatim>\<open>int64_t\<close>, modelled as lists of
  integers. Passing one to \<^verbatim>\<open>DataObjectFactory::create\<close>, whose dimensions are
  \<^verbatim>\<open>size_t\<close>, converts it modulo \<open>2 ^ 64\<close>.
\<close>

definition to_size_t :: "int \<Rightarrow> size_t" where
  "to_size_t n = word_of_int n"

text \<open>
  An output slot \<^verbatim>\<open>*res[i]\<close> is a pointer to a matrix: \<open>None\<close> is \<^verbatim>\<open>nullptr\<close>. The
  slots are taken to be pairwise distinct locations, so the array of slots is a list.
  The factory \<^verbatim>\<open>DataObjectFactory::create<DT>\<close> and \<^verbatim>\<open>DT::bufferSize\<close> belong to the
  data type \<^verbatim>\<open>DT\<close> the wrapper is instantiated with; they are parameters. The factory
  allocates, so it either returns the new matrix or throws.

  One iteration of the loop body, for output \<open>i\<close>: it returns the slot and the bytes
  added to \<^verbatim>\<open>mem_required\<close>, or the exception of the factory, which is thrown before
  anything is assigned to the slot.
\<close>

definition allocateOutput_step ::
  "(size_t \<Rightarrow> size_t \<Rightarrow> bool \<Rightarrow> failure + 'dt) \<Rightarrow> ('dt \<Rightarrow> size_t) \<Rightarrow>
   'dt option \<Rightarrow> int \<Rightarrow> int \<Rightarrow> VectorCombine \<Rightarrow> failure + 'dt option \<times> size_t" where
  "allocateOutput_step create bufferSize slot outRow outCol combine =
     (if slot = None \<and> outRow \<noteq> - 1 \<and> outCol \<noteq> - 1 then
        (let zeroOut = (combine = Combine_ADD) in
         case create (to_size_t outRow) (to_size_t outCol) zeroOut of
           Inl e \<Rightarrow> Inl e
         | Inr m \<Rightarrow> Inr (Some m, bufferSize m))
      else Inr (slot, 0))"

text \<open>
  The loop \<^verbatim>\<open>for(size_t i = 0; i < numOutputs; ++i)\<close>, over the values of \<open>i\<close> still to
  come. The state is the array of slots and \<^verbatim>\<open>mem_required\<close>; the arrays have at least
  \<^verbatim>\<open>numOutputs\<close> entries. Nothing in the function catches an exception: when the
  factory throws, the loop ends there, the slots keep what they hold at that moment
  (the function assigns through the caller's pointers) and the exception replaces the
  returned \<^verbatim>\<open>mem_required\<close>.
\<close>

fun allocateOutput_loop ::
  "(size_t \<Rightarrow> size_t \<Rightarrow> bool \<Rightarrow> failure + 'dt) \<Rightarrow> ('dt \<Rightarrow> size_t) \<Rightarrow>
   int list \<Rightarrow> int list \<Rightarrow> VectorCombine list \<Rightarrow> nat list \<Rightarrow>
   'dt option list \<times> size_t \<Rightarrow> 'dt option list \<times> (failure + size_t)" where
  "allocateOutput_loop create bufferSize outRows outCols combines [] (res, mem_required) =
     (res, Inr mem_required)"
| "allocateOutput_loop create bufferSize outRows outCols combines (i # is) (res, mem_required) =
     (case allocateOutput_step create bufferSize (res ! i) (outRows ! i) (outCols ! i) (combines ! i) of
        Inl e \<Rightarrow> (res, Inl e)
      | Inr (slot, bytes) \<Rightarrow>
          allocateOutput_loop create bufferSize outRows outCols combines is
            (res[i := slot], mem_required + bytes))"

definition allocateOutput ::
  "(size_t \<Rightarrow> size_t \<Rightarrow> bool \<Rightarrow> failure + 'dt) \<Rightarrow> ('dt \<Rightarrow> size_t) \<Rightarrow>
   'dt option list \<Rightarrow> nat \<Rightarrow> int list \<Rightarrow> int list \<Rightarrow> VectorCombine list \<Rightarrow>
   'dt option list \<times> (failure + size_t)" where
  "allocateOutput create bufferSize res numOutputs outRows outCols combines =
     allocateOutput_loop create bufferSize outRows outCols combines [0..<numOutputs] (res, 0)"

text \<open>
  Output \<open>i\<close> is one the function allocates for: its slot is null on entry and neither
  of its dimensions is the marker \<open>-1\<close>. What the factory answers for it. And the
  factory throws for it.
\<close>

definition requested :: "'dt option list \<Rightarrow> int list \<Rightarrow> int list \<Rightarrow> nat \<Rightarrow> bool" where
  "requested res outRows outCols i \<longleftrightarrow> res ! i = None \<and> outRows ! i \<noteq> - 1 \<and> outCols ! i \<noteq> - 1"

definition created ::
  "(size_t \<Rightarrow> size_t \<Rightarrow> bool \<Rightarrow> failure + 'dt) \<Rightarrow> int list \<Rightarrow> int list \<Rightarrow> VectorCombine list \<Rightarrow>
   nat \<Rightarrow> failure + 'dt" where
  "created create outRows outCols combines i =
     create (to_size_t (outRows ! i)) (to_size_t (outCols ! i)) (combines ! i = Combine_ADD)"

definition throws ::
  "(size_t \<Rightarrow> size_t \<Rightarrow> bool \<Rightarrow> failure + 'dt) \<Rightarrow> 'dt option list \<Rightarrow> int list \<Rightarrow> int list \<Rightarrow>
   VectorCombine list \<Rightarrow> nat \<Rightarrow> bool" where
  "throws create res outRows outCols combines i \<longleftrightarrow>
     requested res outRows outCols i \<and> isl (created create outRows outCols combines i)"

section \<open>Dense matrices and \<^verbatim>\<open>GenGivenVals<DenseMatrix, VT>\<close>\<close>

text \<open>
  A dense matrix holds its cells row-major in one buffer. A cell of the buffer is
  \<open>None\<close> while nothing has been written to it (memory that was allocated and not
  initialized).
\<close>

record 'vt DenseMatrix =
  numRows :: nat
  numCols :: nat
  "values" :: "'vt option list"

text \<open>
  Modelled from the spec: \<^verbatim>\<open>DataObjectFactory::create<DenseMatrix<T>>(rows, cols, zeroInit)\<close>;
  the class \<^verbatim>\<open>DenseMatrix\<close> and the factory are not among the sources. The new matrix
  has a buffer of \<open>rows * cols\<close> cells, zeroed iff \<^verbatim>\<open>zeroInit\<close>.
\<close>

definition create_DenseMatrix :: "nat \<Rightarrow> nat \<Rightarrow> bool \<Rightarrow> ('vt::zero) DenseMatrix" where
  "create_DenseMatrix rows cols zeroInit =
     \<lparr>numRows = rows, numCols = cols,
      values = replicate (rows * cols) (if zeroInit then Some 0 else None)\<rparr>"

text \<open>
  Modelled from the spec: the cell in row \<open>r\<close> and column \<open>c\<close> of a dense matrix
  (row-major contiguous values).
\<close>

definition DenseMatrix_get :: "'vt DenseMatrix \<Rightarrow> nat \<Rightarrow> nat \<Rightarrow> 'vt option" where
  "DenseMatrix_get m r c = values m ! (r * numCols m + c)"

text \<open>
  \<^verbatim>\<open>memcpy(dst, src, n * sizeof(VT))\<close>: the first \<open>n\<close> cells of \<open>dst\<close> become the first
  \<open>n\<close> elements of \<open>src\<close>. Both buffers have at least \<open>n\<close> cells where it is called.
\<close>

definition memcpy :: "'vt option list \<Rightarrow> 'vt list \<Rightarrow> nat \<Rightarrow> 'vt option list" where
  "memcpy dst src n = map Some (take n src) @ drop n dst"

definition generate_DenseMatrix :: "nat \<Rightarrow> ('vt::zero) list \<Rightarrow> failure + 'vt DenseMatrix" where
  "generate_DenseMatrix numRows' elements =
     (let numCells = length elements in
      if numRows' = 0 then Inl DivisionByZero
      else if numCells mod numRows' \<noteq> 0 then Inl AssertionFailed
      else
        (let numCols' = numCells div numRows';
             res = create_DenseMatrix numRows' numCols' False
         in Inr (res\<lparr>values := memcpy (values res) elements numCells\<rparr>)))"

text \<open>
  Modelled from the spec: the factory and the buffer size in bytes that
  \<^verbatim>\<open>allocateOutput\<close> uses when the wrapper's data type is \<^verbatim>\<open>DT = DenseMatrix<VT>\<close>, with
  elements of \<open>sizeof_VT\<close> bytes. The buffer has \<open>rows * cols\<close> cells, a product of two
  \<^verbatim>\<open>size_t\<close>, which wraps. Allocating it throws when its size in bytes is beyond the
  largest object, \<open>2 ^ 63 - 1\<close> bytes, or beyond \<open>heap\<close>, the bytes the allocator can
  still provide.
\<close>

definition create_dense ::
  "nat \<Rightarrow> size_t \<Rightarrow> size_t \<Rightarrow> size_t \<Rightarrow> bool \<Rightarrow> failure + ('vt::zero) DenseMatrix" where
  "create_dense heap sizeof_VT rows cols zeroInit =
     (let cells = unat (rows * cols);
          bytes = cells * unat sizeof_VT
      in if 2 ^ 63 \<le> bytes \<or> heap < bytes then Inl AllocationFailed
         else Inr \<lparr>numRows = unat rows, numCols = unat cols,
                   values = replicate cells (if zeroInit then Some 0 else None)\<rparr>)"

definition bufferSize_dense :: "size_t \<Rightarrow> 'vt DenseMatrix \<Rightarrow> size_t" where
  "bufferSize_dense sizeof_VT m = of_nat (numRows m) * of_nat (numCols m) * sizeof_VT"

section \<open>Sparse matrices and \<^verbatim>\<open>GenGivenVals<CSRMatrix, VT>\<close>\<close>

text \<open>
  A CSR matrix has a value array and a column-index array, both with room for the
  maximal number of non-zeros given at creation, and a row-offset array with one entry
  more than there are rows. Cells are \<open>None\<close> until written, as for dense matrices.
\<close>

record 'vt CSRMatrix =
  csr_numRows :: nat
  csr_numCols :: nat
  csr_values :: "'vt option list"
  csr_colIdxs :: "nat option list"
  csr_rowOffsets :: "nat option list"

text \<open>
  Modelled from the spec: \<^verbatim>\<open>DataObjectFactory::create<CSRMatrix<T>>(rows, cols, nnz, zeroInit)\<close>;
  the class \<^verbatim>\<open>CSRMatrix\<close> and the factory are not among the sources.
\<close>

definition create_CSRMatrix :: "nat \<Rightarrow> nat \<Rightarrow> nat \<Rightarrow> bool \<Rightarrow> ('vt::zero) CSRMatrix" where
  "create_CSRMatrix rows cols maxNumNonZeros zeroInit =
     \<lparr>csr_numRows = rows, csr_numCols = cols,
      csr_values = replicate maxNumNonZeros (if zeroInit then Some 0 else None),
      csr_colIdxs = replicate maxNumNonZeros (if zeroInit then Some 0 else None),
      csr_rowOffsets = replicate (rows + 1) (if zeroInit then Some 0 else None)\<rparr>"

text \<open>A write \<^verbatim>\<open>a[i] = v\<close> through a raw pointer into an array of known extent.\<close>

definition store :: "'a option list \<Rightarrow> nat \<Rightarrow> 'a \<Rightarrow> failure + 'a option list" where
  "store a i v = (if i < length a then Inr (a[i := Some v]) else Inl OutOfBounds)"

text \<open>
  The local variables of \<^verbatim>\<open>GenGivenVals<CSRMatrix, VT>::generate\<close> during its second
  loop, with the three arrays of the matrix under construction.
\<close>

record 'vt generate_state =
  pos :: nat
  colIdx :: nat
  rowIdx :: nat
  vals :: "'vt option list"
  colIdxs :: "nat option list"
  rowOffsets :: "nat option list"

definition generate_body :: "nat \<Rightarrow> ('vt::zero) \<Rightarrow> 'vt generate_state \<Rightarrow> failure + 'vt generate_state" where
  "generate_body numCols' v st =
     (case (if v \<noteq> 0 then
              (case store (vals st) (pos st) v of
                 Inl e \<Rightarrow> Inl e
               | Inr vals' \<Rightarrow>
                   (case store (colIdxs st) (pos st) (colIdx st) of
                      Inl e \<Rightarrow> Inl e
                    | Inr colIdxs' \<Rightarrow> Inr (st\<lparr>pos := pos st + 1, vals := vals', colIdxs := colIdxs'\<rparr>)))
            else Inr st) of
        Inl e \<Rightarrow> Inl e
      | Inr st1 \<Rightarrow>
          (let st2 = st1\<lparr>colIdx := colIdx st1 + 1\<rparr> in
           if colIdx st2 = numCols' then
             (case store (rowOffsets st2) (rowIdx st2 + 1) (pos st2) of
                Inl e \<Rightarrow> Inl e
              | Inr rowOffsets' \<Rightarrow>
                  Inr (st2\<lparr>colIdx := 0, rowIdx := rowIdx st2 + 1, rowOffsets := rowOffsets'\<rparr>))
           else Inr st2))"

fun generate_loop :: "nat \<Rightarrow> ('vt::zero) list \<Rightarrow> 'vt generate_state \<Rightarrow> failure + 'vt generate_state" where
  "generate_loop numCols' [] st = Inr st"
| "generate_loop numCols' (v # vs) st =
     (case generate_body numCols' v st of
        Inl e \<Rightarrow> Inl e
      | Inr st' \<Rightarrow> generate_loop numCols' vs st')"

definition generate_CSRMatrix :: "nat \<Rightarrow> ('vt::zero) list \<Rightarrow> failure + 'vt CSRMatrix" where
  "generate_CSRMatrix numRows' elements =
     (let numCells = length elements in
      if numRows' = 0 then Inl DivisionByZero
      else if numCells mod numRows' \<noteq> 0 then Inl AssertionFailed
      else
        (let numCols' = numCells div numRows';
             numNonZeros = fold (\<lambda>v n. if v \<noteq> 0 then n + 1 else n) elements 0;
             res = create_CSRMatrix numRows' numCols' numNonZeros False
         in case store (csr_rowOffsets res) 0 0 of
              Inl e \<Rightarrow> Inl e
            | Inr rowOffsets0 \<Rightarrow>
                (case generate_loop numCols' elements
                        \<lparr>pos = 0, colIdx = 0, rowIdx = 0, vals = csr_values res,
                         colIdxs = csr_colIdxs res, rowOffsets = rowOffsets0\<rparr> of
                   Inl e \<Rightarrow> Inl e
                 | Inr st \<Rightarrow>
                     Inr (res\<lparr>csr_values := vals st, csr_colIdxs := colIdxs st,
                              csr_rowOffsets := rowOffsets st\<rparr>))))"

text \<open>
  What the three arrays of the CSR representation of a row-major list of cells with
  \<open>c\<close> columns should hold: the cells that are not zero, in order; the column of each;
  and, for the row offsets up to row \<open>rows\<close>, the number of non-zero cells before the row.
\<close>

definition nonzeros :: "('vt::zero) list \<Rightarrow> 'vt list" where
  "nonzeros xs = filter (\<lambda>v. v \<noteq> 0) xs"

definition nonzero_cols :: "nat \<Rightarrow> ('vt::zero) list \<Rightarrow> nat list" where
  "nonzero_cols c xs = map (\<lambda>j. j mod c) (filter (\<lambda>j. xs ! j \<noteq> 0) [0..<length xs])"

definition row_offsets :: "nat \<Rightarrow> nat \<Rightarrow> ('vt::zero) list \<Rightarrow> nat list" where
  "row_offsets c rows xs = map (\<lambda>i. length (nonzeros (take (i * c) xs))) [0..<rows + 1]"

section \<open>Combining CSR outputs: \<^verbatim>\<open>MTWrapper<CSRMatrix<VT>>::combineOutputs\<close>\<close>

text \<open>
  The override for CSR matrices has an empty body: the slots of \<^verbatim>\<open>res\<close> and of
  \<^verbatim>\<open>res_cuda\<close> are what they were.
\<close>

definition combineOutputs_CSR ::
  "'vt CSRMatrix option list \<Rightarrow> 'vt CSRMatrix option list \<Rightarrow> nat \<Rightarrow> VectorCombine list \<Rightarrow>
   'vt CSRMatrix option list \<times> 'vt CSRMatrix option list" where
  "combineOutputs_CSR res res_cuda numOutputs combines = (res, res_cuda)"

text \<open>
  The combiner as the specification words it, for comparison: the per-task matrices are
  concatenated by rows. The final value and column-index arrays hold each task's
  entries in task order; the final row offsets are the running sum of the number of
  non-zeros of every row.
\<close>

definition csr_offset :: "'vt CSRMatrix \<Rightarrow> nat \<Rightarrow> nat" where
  "csr_offset m r = (case csr_rowOffsets m ! r of Some k \<Rightarrow> k | None \<Rightarrow> 0)"

definition csr_nnz :: "'vt CSRMatrix \<Rightarrow> nat" where
  "csr_nnz m = csr_offset m (csr_numRows m) - csr_offset m 0"

definition csr_row_nnz :: "'vt CSRMatrix \<Rightarrow> nat list" where
  "csr_row_nnz m = map (\<lambda>r. csr_offset m (r + 1) - csr_offset m r) [0..<csr_numRows m]"

fun prefix_sums :: "nat \<Rightarrow> nat list \<Rightarrow> nat list" where
  "prefix_sums acc [] = []"
| "prefix_sums acc (x # xs) = (acc + x) # prefix_sums (acc + x) xs"

definition spec_combine_rows :: "'vt CSRMatrix list \<Rightarrow> 'vt CSRMatrix" where
  "spec_combine_rows tasks =
     \<lparr>csr_numRows = sum_list (map csr_numRows tasks),
      csr_numCols = (case tasks of [] \<Rightarrow> 0 | t # _ \<Rightarrow> csr_numCols t),
      csr_values = concat (map (\<lambda>t. take (csr_nnz t) (drop (csr_offset t 0) (csr_values t))) tasks),
      csr_colIdxs = concat (map (\<lambda>t. take (csr_nnz t) (drop (csr_offset t 0) (csr_colIdxs t))) tasks),
      csr_rowOffsets = map Some (0 # prefix_sums 0 (concat (map csr_row_nnz tasks)))\<rparr>"

section \<open>Input properties: \<^verbatim>\<open>MTWrapperBase::getInputProperties\<close>\<close>

text \<open>
  Of an input \<^verbatim>\<open>Structure\<close> the function reads \<^verbatim>\<open>getNumRows()\<close> and
  \<^verbatim>\<open>getNumItems()\<close>, both \<^verbatim>\<open>size_t\<close>; the class is declared outside the sources, and an
  input is modelled by what these two return.
\<close>

record Structure =
  getNumRows :: size_t
  getNumItems :: size_t

text \<open>
  The loop counter is \<^verbatim>\<open>auto i = 0u\<close>, an \<^verbatim>\<open>unsigned int\<close> of 32 bits, compared with
  \<^verbatim>\<open>numInputs\<close> of type \<^verbatim>\<open>size_t\<close> after conversion to 64 bits; \<^verbatim>\<open>++i\<close> wraps around.
  \<^verbatim>\<open>len\<close> and \<^verbatim>\<open>mem_required\<close> are \<^verbatim>\<open>unsigned long\<close>, 64 bits, and \<open>sizeof_VT\<close> is
  \<^verbatim>\<open>sizeof(typename DT::VT)\<close>. The result is \<open>None\<close> when the loop does not end.
\<close>

partial_function (option) getInputProperties_loop ::
  "size_t \<Rightarrow> Structure list \<Rightarrow> size_t \<Rightarrow> VectorSplit list \<Rightarrow> uint32_t \<Rightarrow> size_t \<Rightarrow> size_t \<Rightarrow>
   (size_t \<times> size_t) option" where
  "getInputProperties_loop sizeof_VT inputs numInputs splits i len mem_required =
     (if ucast i < numInputs then
        (if splits ! unat i = Split_ROWS then
           getInputProperties_loop sizeof_VT inputs numInputs splits (i + 1)
             (max len (getNumRows (inputs ! unat i)))
             (mem_required + getNumItems (inputs ! unat i) * sizeof_VT)
         else getInputProperties_loop sizeof_VT inputs numInputs splits (i + 1) len mem_required)
      else Some (len, mem_required))"

definition getInputProperties ::
  "size_t \<Rightarrow> Structure list \<Rightarrow> size_t \<Rightarrow> VectorSplit list \<Rightarrow> (size_t \<times> size_t) option" where
  "getInputProperties sizeof_VT inputs numInputs splits =
     getInputProperties_loop sizeof_VT inputs numInputs splits 0 0 0"

text \<open>The inputs whose split is \<^verbatim>\<open>ROWS\<close>, in order.\<close>

definition rows_inputs :: "Structure list \<Rightarrow> VectorSplit list \<Rightarrow> Structure list" where
  "rows_inputs inputs splits = map fst (filter (\<lambda>(x, s). s = Split_ROWS) (zip inputs splits))"

section \<open>Worker counts: the constructor of \<^verbatim>\<open>MTWrapperBase\<close>\<close>

text \<open>
  Of the context the constructor reads \<^verbatim>\<open>config.numberOfThreads\<close> (an \<^verbatim>\<open>int\<close>, read
  here as the signed value of its 32 bits), \<^verbatim>\<open>useCUDA()\<close> and \<^verbatim>\<open>cuda_contexts.size()\<close>;
  the context class is declared outside the sources. The context pointer is not null
  where the constructor dereferences it.
\<close>

record DaphneUserConfig =
  numberOfThreads :: uint32_t

record DaphneContext =
  config :: DaphneUserConfig
  useCUDA :: bool
  cuda_contexts_size :: size_t

record MTWrapperBase =
  numThreads :: uint32_t
  numCPPThreads :: uint32_t
  numCUDAThreads :: uint32_t

text \<open>
  \<open>hardware_concurrency\<close> is what \<^verbatim>\<open>std::thread::hardware_concurrency()\<close> returns. The
  three counters are value-initialized to zero before the body runs.
\<close>

definition MTWrapperBase_init :: "uint32_t \<Rightarrow> uint32_t \<Rightarrow> uint32_t \<Rightarrow> DaphneContext \<Rightarrow> MTWrapperBase" where
  "MTWrapperBase_init hardware_concurrency numThreads' numFunctions ctx =
     (let w0 = \<lparr>numThreads = 0, numCPPThreads = 0, numCUDAThreads = 0\<rparr>;
          w1 = (if 0 < sint (numberOfThreads (config ctx))
                then w0\<lparr>numThreads := numberOfThreads (config ctx)\<rparr>
                else w0\<lparr>numThreads := hardware_concurrency\<rparr>);
          w2 = (if useCUDA ctx \<and> 1 < numFunctions
                then w1\<lparr>numCUDAThreads := ucast (cuda_contexts_size ctx)\<rparr>
                else w1);
          w3 = w2\<lparr>numCPPThreads := numThreads w2\<rparr>
      in w3\<lparr>numThreads := numCPPThreads w3 + numCUDAThreads w3\<rparr>)"

section \<open>Prefetching inputs: \<^verbatim>\<open>MTWrapperBase::cudaPrefetchInputs\<close>\<close>

text \<open>
  \<^verbatim>\<open>buffer_usage\<close> is a \<^verbatim>\<open>float\<close>: the quotient, in IEEE 754 single precision, of the two
  sizes converted to single precision. A finite single-precision number has a
  significand of 24 bits; conversion and division round to the nearest such number,
  and to the one with an even significand when two are equally near. The numbers that
  arise here are quotients of sizes below \<open>2 ^ 64\<close>, so they stay in the range of the
  normal numbers and the exponent needs no bound.
\<close>

definition round_half_even :: "nat \<Rightarrow> nat \<Rightarrow> nat \<Rightarrow> nat" where
  "round_half_even q r m =
     (if 2 * r < m then q else if m < 2 * r then q + 1 else if even q then q else q + 1)"

text \<open>
  \<^verbatim>\<open>static_cast<float>(n)\<close> for an unsigned integer \<open>n\<close>. The result is itself an
  integer: below \<open>2 ^ 24\<close> it is \<open>n\<close>, above it is a multiple of the unit in the last
  place \<open>2 ^ s\<close>.
\<close>

definition float_of_nat :: "nat \<Rightarrow> nat" where
  "float_of_nat n =
     (let s = floorlog 2 n - 24
      in round_half_even (n div 2 ^ s) (n mod 2 ^ s) (2 ^ s) * 2 ^ s)"

text \<open>
  The single-precision number nearest to \<open>a / b\<close> for \<open>0 < b\<close>. With \<open>d\<close> the difference
  of the bit lengths, \<open>a / b\<close> lies strictly between \<open>2 ^ (d - 1)\<close> and \<open>2 ^ (d + 1)\<close>;
  \<open>e\<close> is its binary exponent and \<open>2 ^ (e - 23)\<close> the unit in the last place.
\<close>

definition float_quotient :: "nat \<Rightarrow> nat \<Rightarrow> real" where
  "float_quotient a b =
     (if a = 0 then 0
      else
        (let d = int (floorlog 2 a) - int (floorlog 2 b);
             e = (if (if d < 0 then b \<le> a * 2 ^ nat (- d) else b * 2 ^ nat d \<le> a) then d else d - 1);
             s = e - 23;
             n = (if s < 0 then a * 2 ^ nat (- s) else a);
             m = (if s < 0 then b else b * 2 ^ nat s);
             q = round_half_even (n div m) (n mod m) m
         in if s < 0 then real q / 2 ^ nat (- s) else real q * 2 ^ nat s))"

datatype float = Finite real | Infinity | NaN

text \<open>Division of two non-negative integral single-precision numbers.\<close>

definition float_div :: "nat \<Rightarrow> nat \<Rightarrow> float" where
  "float_div a b =
     (if b = 0 then (if a = 0 then NaN else Infinity) else Finite (float_quotient a b))"

text \<open>The comparison \<^verbatim>\<open>x < 1.0\<close>; it is false for a NaN.\<close>

definition float_less_one :: "float \<Rightarrow> bool" where
  "float_less_one x = (case x of Finite v \<Rightarrow> v < 1 | Infinity \<Rightarrow> False | NaN \<Rightarrow> False)"

text \<open>
  \<open>memBudget\<close> is what \<^verbatim>\<open>_ctx->getCUDAContext(0)->getMemBudget()\<close> returns, a \<^verbatim>\<open>size_t\<close>.
\<close>

definition buffer_usage :: "size_t \<Rightarrow> size_t \<Rightarrow> float" where
  "buffer_usage mem_required memBudget =
     float_div (float_of_nat (unat mem_required)) (float_of_nat (unat memBudget))"

text \<open>
  The effect of the function is the sequence of calls \<^verbatim>\<open>inputs[i]->getValuesCUDA()\<close>,
  each of which moves input \<open>i\<close> to the device: the result lists the indices \<open>i\<close> in the
  order of the calls. The counter and \<^verbatim>\<open>numInputs\<close> are both \<^verbatim>\<open>uint32_t\<close>, and the arrays
  have \<^verbatim>\<open>numInputs\<close> entries. The line that debug builds print is left out.
\<close>

definition cudaPrefetchInputs :: "size_t \<Rightarrow> nat \<Rightarrow> size_t \<Rightarrow> VectorSplit list \<Rightarrow> nat list" where
  "cudaPrefetchInputs memBudget numInputs mem_required splits =
     (if float_less_one (buffer_usage mem_required memBudget) then
        fold (\<lambda>i prefetched. if splits ! i = Split_ROWS then prefetched @ [i] else prefetched)
          [0..<numInputs] []
      else [])"

section \<open>Topology discovery: \<^verbatim>\<open>MTWrapperBase::get_topology\<close>\<close>

subsection \<open>The C library functions it calls\<close>

text \<open>\<^verbatim>\<open>isspace\<close> and \<^verbatim>\<open>isdigit\<close> in the C locale.\<close>

definition isspace :: "char \<Rightarrow> bool" where
  "isspace c = (let n = (of_char c :: nat) in n = 32 \<or> (9 \<le> n \<and> n \<le> 13))"

definition isdigit :: "char \<Rightarrow> bool" where
  "isdigit c = (let n = (of_char c :: nat) in 48 \<le> n \<and> n \<le> 57)"

text \<open>
  \<^verbatim>\<open>strtoul(s, NULL, 10)\<close> for a string \<open>s\<close>: white space is skipped, a sign may follow,
  then the longest run of decimal digits is read. Without a digit the result is 0; a
  value that does not fit 64 bits gives \<^verbatim>\<open>ULONG_MAX\<close>; a minus sign negates modulo
  \<open>2 ^ 64\<close>.
\<close>

definition strtoul :: "string \<Rightarrow> 64 word" where
  "strtoul s =
     (let s1 = dropWhile isspace s;
          signed = (s1 \<noteq> [] \<and> (hd s1 = CHR ''-'' \<or> hd s1 = CHR ''+''));
          negative = (s1 \<noteq> [] \<and> hd s1 = CHR ''-'');
          s2 = (if signed then tl s1 else s1);
          digits = takeWhile isdigit s2;
          n = foldl (\<lambda>a d. 10 * a + (of_char d - 48)) (0::nat) digits
      in if digits = [] then 0
         else if 2 ^ 64 \<le> n then - 1
         else if negative then - of_nat n
         else of_nat n)"

subsection \<open>Parsing a line\<close>

text \<open>
  \<^verbatim>\<open>_parse_buffer\<close>: \<^verbatim>\<open>strncmp(buffer, keyword, strlen(keyword))\<close> is zero iff the buffer
  starts with the keyword. The outer \<open>None\<close> is the result \<^verbatim>\<open>false\<close>; otherwise \<^verbatim>\<open>valptr\<close>
  is what follows the first colon of the buffer, or \<^verbatim>\<open>NULL\<close> (the inner \<open>None\<close>) when the
  buffer has no colon.
\<close>

definition parse_buffer :: "string \<Rightarrow> string \<Rightarrow> string option option" where
  "parse_buffer buffer keyword =
     (if take (length keyword) buffer \<noteq> keyword then None
      else
        (case dropWhile (\<lambda>c. c \<noteq> CHR '':'') buffer of
           [] \<Rightarrow> Some None
         | c # ptr \<Rightarrow> Some (Some ptr)))"

text \<open>
  \<^verbatim>\<open>_parse_line\<close>: the value is stored in a \<^verbatim>\<open>uint32_t\<close>, which keeps the low 32 bits.
  \<^verbatim>\<open>strtoul\<close> reads through \<^verbatim>\<open>valptr\<close>, so a null \<^verbatim>\<open>valptr\<close> is a failure.
\<close>

definition parse_line :: "string \<Rightarrow> string \<Rightarrow> failure + uint32_t option" where
  "parse_line buffer keyword =
     (case parse_buffer buffer keyword of
        None \<Rightarrow> Inr None
      | Some None \<Rightarrow> Inl NullPointer
      | Some (Some valptr) \<Rightarrow> Inr (Some (ucast (strtoul valptr))))"

subsection \<open>The loop over the lines\<close>

text \<open>\<^verbatim>\<open>v[i]\<close> on a \<^verbatim>\<open>std::vector\<close>: outside the bounds the behaviour is undefined.\<close>

definition vector_at :: "'a list \<Rightarrow> nat \<Rightarrow> failure + 'a" where
  "vector_at v i = (if i < length v then Inr (v ! i) else Inl OutOfBounds)"

text \<open>
  The vectors hold \<^verbatim>\<open>int\<close>; \<^verbatim>\<open>push_back(value)\<close> converts the \<^verbatim>\<open>uint32_t\<close> to its signed
  reading, and \<^verbatim>\<open>core_ids[i] == value\<close> compares after converting the \<^verbatim>\<open>int\<close> back to
  32 unsigned bits.
\<close>

record topology_state =
  hardware_threads :: "int list"
  core_ids :: "int list"
  physical_ids :: "int list"
  unique_threads :: "int list"
  index :: nat

text \<open>The inner loop \<^verbatim>\<open>for (int i=0; i<index; i++)\<close>, over the values of \<open>i\<close> still to come.\<close>

fun found_loop :: "topology_state \<Rightarrow> uint32_t \<Rightarrow> nat list \<Rightarrow> nat \<Rightarrow> failure + nat" where
  "found_loop st val [] found = Inr found"
| "found_loop st val (i # is) found =
     (case vector_at (core_ids st) i of
        Inl e \<Rightarrow> Inl e
      | Inr c \<Rightarrow>
          if (word_of_int c :: uint32_t) = val then
            (case vector_at (physical_ids st) i of
               Inl e \<Rightarrow> Inl e
             | Inr p \<Rightarrow>
                 (case vector_at (physical_ids st) (index st) of
                    Inl e \<Rightarrow> Inl e
                  | Inr p' \<Rightarrow> found_loop st val is (if p = p' then found + 1 else found)))
          else found_loop st val is found)"

text \<open>The body of the \<^verbatim>\<open>while\<close> loop, for one buffer that \<^verbatim>\<open>fgets\<close> has filled.\<close>

definition topology_line :: "string \<Rightarrow> topology_state \<Rightarrow> failure + topology_state" where
  "topology_line buffer st =
     (case parse_line buffer ''processor'' of
        Inl e \<Rightarrow> Inl e
      | Inr (Some val) \<Rightarrow> Inr (st\<lparr>hardware_threads := hardware_threads st @ [sint val]\<rparr>)
      | Inr None \<Rightarrow>
          (case parse_line buffer ''physical id'' of
             Inl e \<Rightarrow> Inl e
           | Inr (Some val) \<Rightarrow> Inr (st\<lparr>physical_ids := physical_ids st @ [sint val]\<rparr>)
           | Inr None \<Rightarrow>
               (case parse_line buffer ''core id'' of
                  Inl e \<Rightarrow> Inl e
                | Inr None \<Rightarrow> Inr st
                | Inr (Some val) \<Rightarrow>
                    (case found_loop st val [0..<index st] 0 of
                       Inl e \<Rightarrow> Inl e
                     | Inr found \<Rightarrow>
                         (let st1 = st\<lparr>core_ids := core_ids st @ [sint val]\<rparr> in
                          if found = 0 then
                            (case vector_at (hardware_threads st1) (index st1) of
                               Inl e \<Rightarrow> Inl e
                             | Inr h \<Rightarrow>
                                 Inr (st1\<lparr>unique_threads := unique_threads st1 @ [h],
                                          index := index st1 + 1\<rparr>))
                          else Inr (st1\<lparr>index := index st1 + 1\<rparr>))))))"

text \<open>
  The stream is the list of the buffers that successive calls of \<^verbatim>\<open>fgets\<close> fill until
  it returns \<^verbatim>\<open>NULL\<close>.
\<close>

fun topology_loop :: "string list \<Rightarrow> topology_state \<Rightarrow> failure + topology_state" where
  "topology_loop [] st = Inr st"
| "topology_loop (buffer # rest) st =
     (case topology_line buffer st of
        Inl e \<Rightarrow> Inl e
      | Inr st' \<Rightarrow> topology_loop rest st')"

text \<open>
  \<open>cpu_info_file\<close> is what \<^verbatim>\<open>fopen(_cpuinfo_path, "r")\<close> returns: \<open>None\<close> is \<^verbatim>\<open>NULL\<close>. The
  function appends to the two vectors it is given and writes to the standard output;
  the result pairs the standard output with the vectors, or with the failure. When
  the file is \<^verbatim>\<open>NULL\<close> the message is printed and the loop then calls \<^verbatim>\<open>fgets\<close> on the
  null stream.
\<close>

definition get_topology ::
  "string list option \<Rightarrow> int list \<Rightarrow> int list \<Rightarrow> string list \<Rightarrow>
   string list \<times> (failure + int list \<times> int list)" where
  "get_topology cpu_info_file physical_ids' unique_threads' stdout =
     (let stdout' = (if cpu_info_file = None then stdout @ [''Error opening file.''] else stdout)
      in case cpu_info_file of
           None \<Rightarrow> (stdout', Inl NullPointer)
         | Some lines \<Rightarrow>
             (stdout',
              case topology_loop lines
                     \<lparr>hardware_threads = [], core_ids = [], physical_ids = physical_ids',
                      unique_threads = unique_threads', index = 0\<rparr> of
                Inl e \<Rightarrow> Inl e
              | Inr st \<Rightarrow> Inr (physical_ids st, unique_threads st)))"

subsection \<open>Record streams\<close>

text \<open>
  The CPU-info stream lists, for every processor, a \<^verbatim>\<open>processor\<close> line, a
  \<^verbatim>\<open>physical id\<close> line and a \<^verbatim>\<open>core id\<close> line, in this order, among lines about other
  properties of the processor. What one line says to \<^verbatim>\<open>get_topology\<close> is the first of
  the three keywords it starts with, in the order of the \<^verbatim>\<open>if\<close> chain, and the value
  after its colon.
\<close>

datatype event = Processor uint32_t | PhysicalId uint32_t | CoreId uint32_t | Other

definition line_event :: "string \<Rightarrow> failure + event" where
  "line_event buffer =
     (case parse_line buffer ''processor'' of
        Inl e \<Rightarrow> Inl e
      | Inr (Some val) \<Rightarrow> Inr (Processor val)
      | Inr None \<Rightarrow>
          (case parse_line buffer ''physical id'' of
             Inl e \<Rightarrow> Inl e
           | Inr (Some val) \<Rightarrow> Inr (PhysicalId val)
           | Inr None \<Rightarrow>
               (case parse_line buffer ''core id'' of
                  Inl e \<Rightarrow> Inl e
                | Inr (Some val) \<Rightarrow> Inr (CoreId val)
                | Inr None \<Rightarrow> Inr Other)))"

record cpu_record =
  processor :: uint32_t
  physical_id :: uint32_t
  core_id :: uint32_t

definition record_events :: "cpu_record list \<Rightarrow> (failure + event) list" where
  "record_events rs =
     concat (map (\<lambda>r. [Inr (Processor (processor r)), Inr (PhysicalId (physical_id r)),
                        Inr (CoreId (core_id r))]) rs)"

text \<open>The lines are a stream of the records \<open>rs\<close>.\<close>

definition record_stream :: "string list \<Rightarrow> cpu_record list \<Rightarrow> bool" where
  "record_stream lines rs \<longleftrightarrow>
     filter (\<lambda>e. e \<noteq> Inr Other) (map line_event lines) = record_events rs"

text \<open>Record \<open>i\<close> is the first of the stream on its core: no earlier one has its pair.\<close>

definition first_on_core :: "cpu_record list \<Rightarrow> nat \<Rightarrow> bool" where
  "first_on_core rs i \<longleftrightarrow>
     (\<forall>j<i. (physical_id (rs ! j), core_id (rs ! j)) \<noteq> (physical_id (rs ! i), core_id (rs ! i)))"

text \<open>
  The hardware threads of the records that are first on their core, in record order,
  and the state of the loop when it has read the records \<open>rs\<close> from empty vectors.
\<close>

definition unique_of :: "cpu_record list \<Rightarrow> int list" where
  "unique_of rs = map (\<lambda>i. sint (processor (rs ! i))) (filter (first_on_core rs) [0..<length rs])"

definition state_after :: "cpu_record list \<Rightarrow> topology_state" where
  "state_after rs =
     \<lparr>hardware_threads = map (\<lambda>r. sint (processor r)) rs,
      core_ids = map (\<lambda>r. sint (core_id r)) rs,
      physical_ids = map (\<lambda>r. sint (physical_id r)) rs,
      unique_threads = unique_of rs,
      index = length rs\<rparr>"

section \<open>Properties of output allocation\<close>

lemma allocateOutput_loop_append:
  "allocateOutput_loop create bufferSize outRows outCols combines (xs @ ys) (res, mem) =
     (case allocateOutput_loop create bufferSize outRows outCols combines xs (res, mem) of
        (res', Inl e) \<Rightarrow> (res', Inl e)
      | (res', Inr mem') \<Rightarrow> allocateOutput_loop create bufferSize outRows outCols combines ys (res', mem'))"
  by (induction xs arbitrary: res mem) (simp_all split: sum.splits prod.splits)

lemma allocateOutput_step_cases:
  "allocateOutput_step create bufferSize slot r c k =
     (if slot = None \<and> r \<noteq> - 1 \<and> c \<noteq> - 1 then
        (case create (to_size_t r) (to_size_t c) (k = Combine_ADD) of
           Inl e \<Rightarrow> Inl e | Inr m \<Rightarrow> Inr (Some m, bufferSize m))
      else Inr (slot, 0))"
  by (simp add: allocateOutput_step_def Let_def)

text \<open>The slots and the outcome when the loop has gone through the outputs below \<open>n\<close>.\<close>

lemma allocateOutput_loop_prefix:
  assumes "n \<le> length res"
    and "allocateOutput_loop create bufferSize outRows outCols combines [0..<n] (res, mem) = (res', r)"
  shows "length res' = length res \<and>
         (\<forall>i. res' ! i =
            (if i < n \<and> requested res outRows outCols i \<and>
                (\<forall>j<i. \<not> throws create res outRows outCols combines j)
             then (case created create outRows outCols combines i of Inl e \<Rightarrow> None | Inr m \<Rightarrow> Some m)
             else res ! i)) \<and>
         (isl r \<longleftrightarrow> (\<exists>j<n. throws create res outRows outCols combines j))"
  using assms
proof (induction n arbitrary: res' r)
  case 0
  then show ?case by auto
next
  case (Suc n)
  obtain res1 r1 where l: "allocateOutput_loop create bufferSize outRows outCols combines [0..<n] (res, mem) = (res1, r1)"
    by (cases "allocateOutput_loop create bufferSize outRows outCols combines [0..<n] (res, mem)")
  from Suc.prems(1) have n: "n \<le> length res" by simp
  note ih = Suc.IH [OF n l]
  from ih have len: "length res1 = length res" by simp
  from ih have nth: "res1 ! i =
            (if i < n \<and> requested res outRows outCols i \<and>
                (\<forall>j<i. \<not> throws create res outRows outCols combines j)
             then (case created create outRows outCols combines i of Inl e \<Rightarrow> None | Inr m \<Rightarrow> Some m)
             else res ! i)" for i
    by simp
  from ih have thr: "isl r1 \<longleftrightarrow> (\<exists>j<n. throws create res outRows outCols combines j)" by simp
  have l': "allocateOutput_loop create bufferSize outRows outCols combines [0..<Suc n] (res, mem) =
     (case (res1, r1) of
        (res', Inl e) \<Rightarrow> (res', Inl e)
      | (res', Inr mem') \<Rightarrow> allocateOutput_loop create bufferSize outRows outCols combines [n] (res', mem'))"
    by (simp only: upt_Suc_append [OF le0] allocateOutput_loop_append l)
  show ?case
  proof (cases r1)
    case (Inl e)
    then have "res' = res1" "r = Inl e"
      using Suc.prems(2) l' by simp_all
    moreover from Inl thr obtain j where "j < n" "throws create res outRows outCols combines j"
      by auto
    ultimately show ?thesis
      using len nth by (auto simp: less_Suc_eq)
  next
    case (Inr mem1)
    with thr have no: "\<forall>j<n. \<not> throws create res outRows outCols combines j" by simp
    have slot: "res1 ! n = res ! n" using nth [of n] by simp
    show ?thesis
    proof (cases "requested res outRows outCols n")
      case False
      then have "allocateOutput_step create bufferSize (res1 ! n) (outRows ! n) (outCols ! n) (combines ! n) =
                 Inr (res1 ! n, 0)"
        by (auto simp: allocateOutput_step_cases requested_def slot)
      then have "res' = res1" "r = Inr mem1"
        using Suc.prems(2) l' Inr by simp_all
      moreover have "\<not> throws create res outRows outCols combines n"
        using False by (simp add: throws_def)
      ultimately show ?thesis
        using len nth no False by (auto simp: less_Suc_eq)
    next
      case True
      show ?thesis
      proof (cases "created create outRows outCols combines n")
        case (Inl e)
        then have "res' = res1" "r = Inl e"
          using Suc.prems(2) l' Inr slot True
          by (auto simp: allocateOutput_step_cases requested_def created_def)
        moreover have "throws create res outRows outCols combines n"
          using True Inl by (simp add: throws_def)
        moreover have "res1 ! n = None"
          using slot True by (simp add: requested_def)
        ultimately show ?thesis
          using len nth no True Inl
          by (auto simp: less_Suc_eq)
      next
        case (Inr m)
        then have "res' = res1[n := Some m]" "\<not> isl r"
          using Suc.prems(2) l' \<open>r1 = Inr mem1\<close> slot True
          by (auto simp: allocateOutput_step_cases requested_def created_def)
        moreover have "\<not> throws create res outRows outCols combines n"
          using Inr by (simp add: throws_def)
        ultimately show ?thesis
          using len nth no True Inr Suc.prems(1)
          by (auto simp: less_Suc_eq nth_list_update)
      qed
    qed
  qed
qed

lemma allocateOutput_slots:
  assumes "numOutputs \<le> length res"
  shows "fst (allocateOutput create bufferSize res numOutputs outRows outCols combines) ! i =
           (if i < numOutputs \<and> requested res outRows outCols i \<and>
               (\<forall>j<i. \<not> throws create res outRows outCols combines j)
            then (case created create outRows outCols combines i of Inl e \<Rightarrow> None | Inr m \<Rightarrow> Some m)
            else res ! i)"
    and "isl (snd (allocateOutput create bufferSize res numOutputs outRows outCols combines)) \<longleftrightarrow>
           (\<exists>j<numOutputs. throws create res outRows outCols combines j)"
proof -
  obtain res' r where l: "allocateOutput_loop create bufferSize outRows outCols combines [0..<numOutputs] (res, 0) = (res', r)"
    by (cases "allocateOutput_loop create bufferSize outRows outCols combines [0..<numOutputs] (res, 0)")
  note p = allocateOutput_loop_prefix [OF assms l]
  from p show "fst (allocateOutput create bufferSize res numOutputs outRows outCols combines) ! i =
           (if i < numOutputs \<and> requested res outRows outCols i \<and>
               (\<forall>j<i. \<not> throws create res outRows outCols combines j)
            then (case created create outRows outCols combines i of Inl e \<Rightarrow> None | Inr m \<Rightarrow> Some m)
            else res ! i)"
    by (simp add: allocateOutput_def l)
  from p show "isl (snd (allocateOutput create bufferSize res numOutputs outRows outCols combines)) \<longleftrightarrow>
           (\<exists>j<numOutputs. throws create res outRows outCols combines j)"
    by (simp add: allocateOutput_def l)
qed

lemma ex_less_two: "(\<exists>j<2. P j) \<longleftrightarrow> P (0::nat) \<or> P 1"
  by (auto simp: less_2_cases_iff)

text \<open>
  C4, as stated: output \<open>i\<close> is allocated iff its slot is null and \<^verbatim>\<open>outRows[i] >= 0\<close> and
  \<^verbatim>\<open>outCols[i] >= 0\<close>. The code tests for the value \<open>-1\<close> only: with one null slot,
  \<^verbatim>\<open>outRows = {-2}\<close> and \<^verbatim>\<open>outCols = {0}\<close> a matrix is allocated, of \<open>2 ^ 64 - 2\<close> rows,
  no column and so no cell, although \<^verbatim>\<open>outRows[0]\<close> is negative.
\<close>

theorem allocateOutput_negative_rows_counterexample:
  "fst (allocateOutput (create_dense 1073741824 8) (bufferSize_dense 8)
          [None :: int DenseMatrix option] 1 [- 2] [0] [Combine_ROWS]) ! 0 =
     Some \<lparr>numRows = 18446744073709551614, numCols = 0, values = []\<rparr> \<and>
   \<not> (0::int) \<le> - 2"
  by (simp add: allocateOutput_def allocateOutput_step_def create_dense_def to_size_t_def Let_def)

text \<open>
  C4, amended: for every output index \<open>i\<close> below \<^verbatim>\<open>numOutputs\<close> that the loop reaches (no
  allocation for an earlier output has thrown), \<^verbatim>\<open>allocateOutput\<close> asks the factory for a
  fresh matrix of shape \<^verbatim>\<open>outRows[i]\<close> by \<^verbatim>\<open>outCols[i]\<close> (as \<^verbatim>\<open>size_t\<close>), zero-initialized
  iff \<^verbatim>\<open>combines[i]\<close> is \<^verbatim>\<open>ADD\<close>, iff the slot is null and \<^verbatim>\<open>outRows[i] != -1\<close> and
  \<^verbatim>\<open>outCols[i] != -1\<close>. When the factory returns, the matrix is in slot \<open>i\<close> after the
  call; when it throws, as it does for a size that cannot be allocated, the slot is
  still null. Every other slot keeps its content. The call ends with an exception iff
  the factory throws for one of the outputs it is asked for. The witness allocates a
  zeroed 2 by 3 matrix, and for the dimensions 3 by \<open>-7\<close> leaves the slot null and
  ends with the exception.
\<close>

theorem allocateOutput_allocates:
  assumes "i < numOutputs" and "numOutputs \<le> length res"
  shows "fst (allocateOutput create bufferSize res numOutputs outRows outCols combines) ! i =
           (if res ! i = None \<and> outRows ! i \<noteq> - 1 \<and> outCols ! i \<noteq> - 1 \<and>
               (\<forall>j<i. \<not> throws create res outRows outCols combines j)
            then (case create (to_size_t (outRows ! i)) (to_size_t (outCols ! i)) (combines ! i = Combine_ADD) of
                    Inl e \<Rightarrow> None
                  | Inr m \<Rightarrow> Some m)
            else res ! i) \<and>
         (isl (snd (allocateOutput create bufferSize res numOutputs outRows outCols combines)) \<longleftrightarrow>
            (\<exists>j<numOutputs. throws create res outRows outCols combines j))"
  unfolding allocateOutput_slots [OF assms(2)]
  using assms(1) by (auto simp add: requested_def created_def)

theorem allocateOutput_allocates_witness:
  "(0::nat) < 2 \<and> 2 \<le> length [None, None :: int DenseMatrix option] \<and>
   fst (allocateOutput (create_dense 1073741824 8) (bufferSize_dense 8)
          [None, None :: int DenseMatrix option] 2 [2, - 1] [3, 4] [Combine_ADD, Combine_ROWS]) ! 0 =
     Some \<lparr>numRows = 2, numCols = 3, values = replicate 6 (Some 0)\<rparr> \<and>
   fst (allocateOutput (create_dense 1073741824 8) (bufferSize_dense 8)
          [None, None :: int DenseMatrix option] 2 [3, 5] [- 7, 5] [Combine_ROWS, Combine_ROWS]) ! 0 = None \<and>
   isl (snd (allocateOutput (create_dense 1073741824 8) (bufferSize_dense 8)
          [None, None :: int DenseMatrix option] 2 [3, 5] [- 7, 5] [Combine_ROWS, Combine_ROWS]))"
  using allocateOutput_allocates [of 0 2 "[None, None :: int DenseMatrix option]"
      "create_dense 1073741824 8" "bufferSize_dense 8" "[2, - 1]" "[3, 4]" "[Combine_ADD, Combine_ROWS]"]
    allocateOutput_allocates [of 0 2 "[None, None :: int DenseMatrix option]"
      "create_dense 1073741824 8" "bufferSize_dense 8" "[3, 5]" "[- 7, 5]" "[Combine_ROWS, Combine_ROWS]"]
  by (simp add: create_dense_def to_size_t_def throws_def requested_def created_def Let_def ex_less_two)

text \<open>
  C8, as stated: a slot whose dimensions are unknown, that is \<^verbatim>\<open>outRows\<close> or \<^verbatim>\<open>outCols\<close>
  negative, remains null. With one null slot, \<^verbatim>\<open>outRows = {0}\<close> and \<^verbatim>\<open>outCols = {-7}\<close> the
  factory is asked for a matrix without rows, which has no cell and is allocated: the
  slot is not null after the call.
\<close>

theorem allocateOutput_negative_cols_counterexample:
  "fst (allocateOutput (create_dense 1073741824 8) (bufferSize_dense 8)
          [None :: int DenseMatrix option] 1 [0] [- 7] [Combine_ROWS]) ! 0 =
     Some \<lparr>numRows = 0, numCols = 18446744073709551609, values = []\<rparr> \<and>
   (- 7::int) < 0"
  by (simp add: allocateOutput_def allocateOutput_step_def create_dense_def to_size_t_def Let_def)

text \<open>
  C8, amended: \<^verbatim>\<open>allocateOutput\<close> leaves every output slot that is already non-null
  unchanged, and every null output slot with \<^verbatim>\<open>outRows[i] = -1\<close> or \<^verbatim>\<open>outCols[i] = -1\<close>
  is null after the call.
\<close>

theorem allocateOutput_frame:
  assumes "i < numOutputs" and "numOutputs \<le> length res"
  shows "(res ! i \<noteq> None \<longrightarrow>
            fst (allocateOutput create bufferSize res numOutputs outRows outCols combines) ! i = res ! i) \<and>
         (res ! i = None \<and> (outRows ! i = - 1 \<or> outCols ! i = - 1) \<longrightarrow>
            fst (allocateOutput create bufferSize res numOutputs outRows outCols combines) ! i = None)"
  using allocateOutput_slots(1) [OF assms(2), of create bufferSize outRows outCols combines i]
  by (auto simp add: requested_def)

theorem allocateOutput_frame_witness:
  "(1::nat) < 2 \<and>
   2 \<le> length [Some \<lparr>numRows = 1, numCols = 1, values = [Some 0]\<rparr>, None :: int DenseMatrix option] \<and>
   fst (allocateOutput (create_dense 1073741824 8) (bufferSize_dense 8)
          [Some \<lparr>numRows = 1, numCols = 1, values = [Some 0]\<rparr>, None :: int DenseMatrix option] 2
          [5, 7] [5, - 1] [Combine_ROWS, Combine_ROWS]) ! 1 = None \<and>
   fst (allocateOutput (create_dense 1073741824 8) (bufferSize_dense 8)
          [Some \<lparr>numRows = 1, numCols = 1, values = [Some 0]\<rparr>, None :: int DenseMatrix option] 2
          [5, 7] [5, - 1] [Combine_ROWS, Combine_ROWS]) ! 0 =
     Some \<lparr>numRows = 1, numCols = 1, values = [Some 0]\<rparr>"
  using allocateOutput_frame [of 1 2
      "[Some \<lparr>numRows = 1, numCols = 1, values = [Some 0]\<rparr>, None :: int DenseMatrix option]"
      "create_dense 1073741824 8" "bufferSize_dense 8" "[5, 7]" "[5, - 1]" "[Combine_ROWS, Combine_ROWS]"]
    allocateOutput_frame [of 0 2
      "[Some \<lparr>numRows = 1, numCols = 1, values = [Some 0]\<rparr>, None :: int DenseMatrix option]"
      "create_dense 1073741824 8" "bufferSize_dense 8" "[5, 7]" "[5, - 1]" "[Combine_ROWS, Combine_ROWS]"]
  by simp
section \<open>Properties of the dense generator\<close>

text \<open>
  C9: for \<^verbatim>\<open>numRows > 0\<close> and a vector of elements whose length is divisible by
  \<^verbatim>\<open>numRows\<close>, the dense generator returns a matrix with \<^verbatim>\<open>numRows\<close> rows and
  \<^verbatim>\<open>elements.size() / numRows\<close> columns whose cell \<open>(i, j)\<close> is
  \<^verbatim>\<open>elements[i * numCols + j]\<close>: the buffer is the elements in row-major order.
\<close>

theorem generate_DenseMatrix_row_major:
  assumes "0 < n" and "length elements mod n = 0"
  shows "\<exists>m. generate_DenseMatrix n elements = Inr m \<and>
           numRows m = n \<and> numCols m = length elements div n \<and>
           values m = map Some elements \<and>
           (\<forall>i<numRows m. \<forall>j<numCols m. DenseMatrix_get m i j = Some (elements ! (i * numCols m + j)))"
proof -
  let ?c = "length elements div n"
  let ?m = "\<lparr>numRows = n, numCols = ?c, values = map Some elements\<rparr>"
  have g: "generate_DenseMatrix n elements = Inr ?m"
    using assms by (simp add: generate_DenseMatrix_def create_DenseMatrix_def memcpy_def Let_def)
  have len: "length elements = n * ?c"
    using assms by auto
  have "DenseMatrix_get ?m i j = Some (elements ! (i * ?c + j))" if "i < n" and "j < ?c" for i j
  proof -
    have "i * ?c + j < Suc i * ?c" using that by simp
    also have "\<dots> \<le> n * ?c" using that by (intro mult_le_mono1) simp
    finally have "i * ?c + j < length elements" using len by simp
    then show ?thesis by (simp add: DenseMatrix_get_def)
  qed
  with g show ?thesis by simp
qed

theorem generate_DenseMatrix_row_major_witness:
  "(0::nat) < 2 \<and> length [3, 1, 4, 1, 5, 9 :: int] mod 2 = 0 \<and>
   generate_DenseMatrix 2 [3, 1, 4, 1, 5, 9 :: int] =
     Inr \<lparr>numRows = 2, numCols = 3, values = [Some 3, Some 1, Some 4, Some 1, Some 5, Some 9]\<rparr>"
  using generate_DenseMatrix_row_major [of 2 "[3, 1, 4, 1, 5, 9 :: int]"]
  by auto

section \<open>Properties of the CSR combiner\<close>

text \<open>
  C1, as stated: \<^verbatim>\<open>combineOutputs\<close> concatenates the per-task CSR matrices, so that the
  final row offsets end with the sum of the tasks' numbers of non-zeros. Take two
  partial results of one row and one non-zero each, one in the slot of \<^verbatim>\<open>res\<close> and one
  in the slot of \<^verbatim>\<open>res_cuda\<close>. Concatenated by rows they give two values and the row
  offsets 0, 1, 2; after \<^verbatim>\<open>combineOutputs\<close> the slot of \<^verbatim>\<open>res\<close> holds what it held, one
  value and the last row offset 1.
\<close>

theorem combineOutputs_CSR_counterexample:
  "fst (combineOutputs_CSR
          [Some \<lparr>csr_numRows = 1, csr_numCols = 1, csr_values = [Some (5::int)],
                  csr_colIdxs = [Some 0], csr_rowOffsets = [Some 0, Some 1]\<rparr>]
          [Some \<lparr>csr_numRows = 1, csr_numCols = 1, csr_values = [Some 7],
                  csr_colIdxs = [Some 0], csr_rowOffsets = [Some 0, Some 1]\<rparr>]
          1 [Combine_ROWS]) =
     [Some \<lparr>csr_numRows = 1, csr_numCols = 1, csr_values = [Some 5],
             csr_colIdxs = [Some 0], csr_rowOffsets = [Some 0, Some 1]\<rparr>] \<and>
   spec_combine_rows
     [\<lparr>csr_numRows = 1, csr_numCols = 1, csr_values = [Some (5::int)],
        csr_colIdxs = [Some 0], csr_rowOffsets = [Some 0, Some 1]\<rparr>,
      \<lparr>csr_numRows = 1, csr_numCols = 1, csr_values = [Some 7],
        csr_colIdxs = [Some 0], csr_rowOffsets = [Some 0, Some 1]\<rparr>] =
     \<lparr>csr_numRows = 2, csr_numCols = 1, csr_values = [Some 5, Some 7],
      csr_colIdxs = [Some 0, Some 0], csr_rowOffsets = [Some 0, Some 1, Some 2]\<rparr> \<and>
   csr_nnz \<lparr>csr_numRows = 1, csr_numCols = 1, csr_values = [Some (5::int)],
            csr_colIdxs = [Some 0], csr_rowOffsets = [Some 0, Some 1]\<rparr> +
   csr_nnz \<lparr>csr_numRows = 1, csr_numCols = 1, csr_values = [Some (7::int)],
            csr_colIdxs = [Some 0], csr_rowOffsets = [Some 0, Some 1]\<rparr> = 2"
  by (simp add: combineOutputs_CSR_def spec_combine_rows_def csr_nnz_def csr_offset_def
      csr_row_nnz_def)

text \<open>
  C1, amended: for CSR outputs \<^verbatim>\<open>combineOutputs\<close> does nothing. Whatever the number of
  outputs and the combine descriptors, every slot of \<^verbatim>\<open>res\<close> and of \<^verbatim>\<open>res_cuda\<close> holds
  after the call what it held before; nothing is concatenated.
\<close>

theorem combineOutputs_CSR_unchanged:
  "combineOutputs_CSR res res_cuda numOutputs combines = (res, res_cuda)"
  by (simp add: combineOutputs_CSR_def)

section \<open>Properties of the constructor\<close>

lemma sint_pos_uint:
  fixes n :: uint32_t
  assumes "0 < sint n"
  shows "uint n = sint n"
proof -
  have "uint (word_of_int (sint n) :: uint32_t) = take_bit 32 (sint n)"
    by (simp only: uint_word_of_int_eq) simp
  moreover have "take_bit 32 (sint n) = sint n"
    using assms sint_lt [of n] by (simp add: take_bit_int_eq_self)
  ultimately show ?thesis by simp
qed

text \<open>
  C7: on construction, a configured \<^verbatim>\<open>numberOfThreads\<close> greater than 0 becomes the number
  of CPU workers (the same 32 bits, and the same number); when it is 0 the number of
  CPU workers is what \<^verbatim>\<open>std::thread::hardware_concurrency()\<close> reports.
\<close>

theorem MTWrapperBase_init_numCPPThreads:
  "(0 < sint (numberOfThreads (config ctx)) \<longrightarrow>
      numCPPThreads (MTWrapperBase_init hardware_concurrency numThreads' numFunctions ctx) = numberOfThreads (config ctx) \<and>
      uint (numCPPThreads (MTWrapperBase_init hardware_concurrency numThreads' numFunctions ctx)) =
        sint (numberOfThreads (config ctx))) \<and>
   (numberOfThreads (config ctx) = 0 \<longrightarrow>
      numCPPThreads (MTWrapperBase_init hardware_concurrency numThreads' numFunctions ctx) = hardware_concurrency)"
  by (simp add: MTWrapperBase_init_def Let_def sint_pos_uint)

theorem MTWrapperBase_init_numCPPThreads_witness:
  "0 < sint (numberOfThreads (config \<lparr>config = \<lparr>numberOfThreads = 4\<rparr>, useCUDA = False, cuda_contexts_size = 0\<rparr>)) \<and>
   numCPPThreads (MTWrapperBase_init 8 0 1 \<lparr>config = \<lparr>numberOfThreads = 4\<rparr>, useCUDA = False, cuda_contexts_size = 0\<rparr>) = 4 \<and>
   numberOfThreads (config \<lparr>config = \<lparr>numberOfThreads = 0\<rparr>, useCUDA = True, cuda_contexts_size = 1\<rparr>) = 0 \<and>
   numCPPThreads (MTWrapperBase_init 8 0 2 \<lparr>config = \<lparr>numberOfThreads = 0\<rparr>, useCUDA = True, cuda_contexts_size = 1\<rparr>) = 8"
  using MTWrapperBase_init_numCPPThreads [of "\<lparr>config = \<lparr>numberOfThreads = 4\<rparr>, useCUDA = False, cuda_contexts_size = 0\<rparr>" 8 0 1]
    MTWrapperBase_init_numCPPThreads [of "\<lparr>config = \<lparr>numberOfThreads = 0\<rparr>, useCUDA = True, cuda_contexts_size = 1\<rparr>" 8 0 2]
  by simp

section \<open>Properties of \<^verbatim>\<open>getInputProperties\<close>\<close>

lemma rows_inputs_Nil [simp]: "rows_inputs [] splits = []" "rows_inputs inputs [] = []"
  by (simp_all add: rows_inputs_def)

lemma rows_inputs_Cons [simp]:
  "rows_inputs (x # inputs) (s # splits) =
     (if s = Split_ROWS then x # rows_inputs inputs splits else rows_inputs inputs splits)"
  by (simp add: rows_inputs_def)

lemma rows_inputs_drop:
  assumes "k < length inputs" and "k < length splits"
  shows "rows_inputs (drop k inputs) (drop k splits) =
           (if splits ! k = Split_ROWS
            then inputs ! k # rows_inputs (drop (Suc k) inputs) (drop (Suc k) splits)
            else rows_inputs (drop (Suc k) inputs) (drop (Suc k) splits))"
  using assms by (simp add: Cons_nth_drop_Suc [symmetric])

lemma counter_less:
  fixes i :: uint32_t and numInputs :: size_t
  shows "(ucast i :: size_t) < numInputs \<longleftrightarrow> unat i < unat numInputs"
proof -
  have "unat i < 2 ^ 32"
    using unsigned_less [of i, where ?'a = nat] by simp
  then have "unat i < 2 ^ 64"
    by (rule less_trans) simp
  then have "unat (ucast i :: size_t) = unat i"
    by (simp add: unsigned_ucast_eq take_bit_nat_eq_self)
  then show ?thesis
    by (simp add: word_less_nat_alt)
qed

lemma counter_Suc:
  fixes i :: uint32_t
  assumes "unat i < n" and "n < 2 ^ 32"
  shows "unat (i + 1) = Suc (unat i)"
proof -
  have "unat i + 1 < 2 ^ 32" using assms by simp
  then show ?thesis by (simp add: unat_word_ariths)
qed

lemma getInputProperties_loop_eq:
  assumes "unat numInputs < 2 ^ 32"
    and "length inputs = unat numInputs" and "length splits = unat numInputs"
    and "unat i \<le> unat numInputs"
  shows "getInputProperties_loop sizeof_VT inputs numInputs splits i len mem =
           Some (foldl max len (map getNumRows (rows_inputs (drop (unat i) inputs) (drop (unat i) splits))),
                 mem + sum_list (map (\<lambda>x. getNumItems x * sizeof_VT)
                                  (rows_inputs (drop (unat i) inputs) (drop (unat i) splits))))"
  using assms(4)
proof (induction "unat numInputs - unat i" arbitrary: i len mem)
  case 0
  then have "\<not> (ucast i :: size_t) < numInputs"
    by (simp add: counter_less)
  then show ?case
    using 0 assms(2,3) by (subst getInputProperties_loop.simps) simp
next
  case (Suc d)
  then have lt: "unat i < unat numInputs" by simp
  then have c: "(ucast i :: size_t) < numInputs"
    by (simp add: counter_less)
  have s: "unat (i + 1) = Suc (unat i)"
    using lt assms(1) by (rule counter_Suc)
  have d: "d = unat numInputs - unat (i + 1)" and le: "unat (i + 1) \<le> unat numInputs"
    using Suc.hyps(2) lt s by simp_all
  note ih = Suc.hyps(1) [OF d le]
  have r: "rows_inputs (drop (unat i) inputs) (drop (unat i) splits) =
           (if splits ! unat i = Split_ROWS
            then inputs ! unat i # rows_inputs (drop (Suc (unat i)) inputs) (drop (Suc (unat i)) splits)
            else rows_inputs (drop (Suc (unat i)) inputs) (drop (Suc (unat i)) splits))"
    using lt assms(2,3) by (intro rows_inputs_drop) simp_all
  show ?case
    by (subst getInputProperties_loop.simps) (simp add: c ih s r add.assoc)
qed

lemma foldl_max_Max:
  fixes a :: "'a::linorder"
  shows "foldl max a xs = Max (insert a (set xs))"
proof (induction xs arbitrary: a)
  case Nil
  then show ?case by simp
next
  case (Cons x xs)
  have "Max (insert (max a x) (set xs)) = Max (insert a (insert x (set xs)))"
    by (cases "set xs = {}") (simp_all add: max.assoc max.commute max.left_commute)
  with Cons show ?case by simp
qed

text \<open>
  C6: for arrays of \<^verbatim>\<open>numInputs\<close> inputs and split descriptors, \<^verbatim>\<open>getInputProperties\<close>
  returns as \<^verbatim>\<open>len\<close> the largest \<^verbatim>\<open>numRows\<close> among the inputs whose split is \<^verbatim>\<open>ROWS\<close>
  (0 when there is none) and as \<^verbatim>\<open>mem_required\<close> the sum, over the same inputs, of
  \<^verbatim>\<open>numItems\<close> times the element size, in \<^verbatim>\<open>size_t\<close> arithmetic. Inputs whose split is
  \<^verbatim>\<open>NONE\<close> are not among \<open>rows_inputs\<close> and contribute to neither. The function
  returns because the 32-bit counter reaches \<^verbatim>\<open>numInputs\<close>.
\<close>

theorem getInputProperties_len_memRequired:
  assumes "unat numInputs < 2 ^ 32"
    and "length inputs = unat numInputs" and "length splits = unat numInputs"
  shows "getInputProperties sizeof_VT inputs numInputs splits =
           Some (Max (insert 0 (set (map getNumRows (rows_inputs inputs splits)))),
                 sum_list (map (\<lambda>x. getNumItems x * sizeof_VT) (rows_inputs inputs splits)))"
  using getInputProperties_loop_eq [OF assms, of 0 sizeof_VT 0 0]
  by (simp add: getInputProperties_def foldl_max_Max)

theorem getInputProperties_len_memRequired_witness:
  "unat (3 :: size_t) < 2 ^ 32 \<and>
   length [\<lparr>getNumRows = 4, getNumItems = 8\<rparr>, \<lparr>getNumRows = 9, getNumItems = 9\<rparr>,
           \<lparr>getNumRows = 6, getNumItems = 12\<rparr>] = unat (3 :: size_t) \<and>
   length [Split_ROWS, Split_NONE, Split_ROWS] = unat (3 :: size_t) \<and>
   getInputProperties 8
     [\<lparr>getNumRows = 4, getNumItems = 8\<rparr>, \<lparr>getNumRows = 9, getNumItems = 9\<rparr>,
      \<lparr>getNumRows = 6, getNumItems = 12\<rparr>] 3
     [Split_ROWS, Split_NONE, Split_ROWS] = Some (6, 160)"
  using getInputProperties_len_memRequired [of 3
      "[\<lparr>getNumRows = 4, getNumItems = 8\<rparr>, \<lparr>getNumRows = 9, getNumItems = 9\<rparr>,
        \<lparr>getNumRows = 6, getNumItems = 12\<rparr>]" "[Split_ROWS, Split_NONE, Split_ROWS]" 8]
  by simp

section \<open>Properties of topology discovery\<close>

text \<open>What one line does to the state of the loop, by the event it is.\<close>

lemma topology_line_Other:
  "line_event buffer = Inr Other \<Longrightarrow> topology_line buffer st = Inr st"
  by (auto simp: line_event_def topology_line_def split: sum.splits option.splits)

lemma topology_line_Processor:
  "line_event buffer = Inr (Processor v) \<Longrightarrow>
   topology_line buffer st = Inr (st\<lparr>hardware_threads := hardware_threads st @ [sint v]\<rparr>)"
  by (auto simp: line_event_def topology_line_def split: sum.splits option.splits)

lemma topology_line_PhysicalId:
  "line_event buffer = Inr (PhysicalId v) \<Longrightarrow>
   topology_line buffer st = Inr (st\<lparr>physical_ids := physical_ids st @ [sint v]\<rparr>)"
  by (auto simp: line_event_def topology_line_def split: sum.splits option.splits)

lemma line_event_CoreId:
  "line_event buffer = Inr (CoreId v) \<Longrightarrow>
   parse_line buffer ''processor'' = Inr None \<and> parse_line buffer ''physical id'' = Inr None \<and>
   parse_line buffer ''core id'' = Inr (Some v)"
  by (auto simp: line_event_def split: sum.splits option.splits)

lemma topology_loop_skip_Other:
  "topology_loop lines st = topology_loop (filter (\<lambda>b. line_event b \<noteq> Inr Other) lines) st"
proof (induction lines arbitrary: st)
  case Nil
  then show ?case by simp
next
  case (Cons b lines)
  then show ?case
    by (cases "line_event b = Inr Other") (simp_all add: topology_line_Other split: sum.splits)
qed

lemma sint_eq_iff:
  fixes a b :: uint32_t
  shows "sint a = sint b \<longleftrightarrow> a = b"
  using word_eq_iff_signed [of a b, where ?'a = int] by auto

text \<open>The inner loop counts the earlier records with the pair of the current one.\<close>

lemma found_loop_count:
  assumes "\<forall>j\<in>set js. j < length done"
    and "core_ids st = map (\<lambda>r. sint (core_id r)) done"
    and "physical_ids st = map (\<lambda>r. sint (physical_id r)) done @ [sint s]"
    and "index st = length done"
  shows "found_loop st c js found =
           Inr (found + length (filter (\<lambda>j. core_id (done ! j) = c \<and> physical_id (done ! j) = s) js))"
  using assms(1)
proof (induction js arbitrary: found)
  case Nil
  then show ?case by simp
next
  case (Cons j js)
  then have j: "j < length done" by simp
  have ih: "found_loop st c js f =
      Inr (f + length (filter (\<lambda>j. core_id (done ! j) = c \<and> physical_id (done ! j) = s) js))" for f
    using Cons by simp
  show ?case
    using j assms(2-4)
    by (simp add: ih vector_at_def nth_append sint_eq_iff)
qed

lemma first_on_core_append:
  assumes "i < length done"
  shows "first_on_core (done @ rs) i = first_on_core done i"
  using assms by (simp add: first_on_core_def nth_append)

lemma unique_of_snoc:
  "unique_of (done @ [r]) =
     unique_of done @ (if first_on_core (done @ [r]) (length done) then [sint (processor r)] else [])"
proof -
  have "filter (first_on_core (done @ [r])) [0..<length done] = filter (first_on_core done) [0..<length done]"
    by (rule filter_cong) (simp_all add: first_on_core_append)
  moreover have "map (\<lambda>i. sint (processor ((done @ [r]) ! i))) (filter (first_on_core done) [0..<length done]) =
                 map (\<lambda>i. sint (processor (done ! i))) (filter (first_on_core done) [0..<length done])"
    by (rule map_cong) (simp_all add: nth_append)
  ultimately show ?thesis
    by (simp add: unique_of_def)
qed

lemma first_on_core_last:
  "first_on_core (done @ [r]) (length done) \<longleftrightarrow>
     filter (\<lambda>j. core_id (done ! j) = core_id r \<and> physical_id (done ! j) = physical_id r) [0..<length done] = []"
  by (auto simp: first_on_core_def filter_empty_conv nth_append)

lemma topology_line_CoreId:
  assumes "line_event buffer = Inr (CoreId (core_id r))"
  shows "topology_line buffer
           ((state_after done)
              \<lparr>hardware_threads := hardware_threads (state_after done) @ [sint (processor r)],
               physical_ids := physical_ids (state_after done) @ [sint (physical_id r)]\<rparr>) =
         Inr (state_after (done @ [r]))"
proof -
  let ?st = "\<lparr>hardware_threads = map (\<lambda>r. sint (processor r)) done @ [sint (processor r)],
              core_ids = map (\<lambda>r. sint (core_id r)) done,
              physical_ids = map (\<lambda>r. sint (physical_id r)) done @ [sint (physical_id r)],
              unique_threads = unique_of done,
              index = length done\<rparr>"
  have st: "(state_after done)
              \<lparr>hardware_threads := hardware_threads (state_after done) @ [sint (processor r)],
               physical_ids := physical_ids (state_after done) @ [sint (physical_id r)]\<rparr> = ?st"
    by (simp add: state_after_def)
  have f: "found_loop ?st (core_id r) [0..<length done] 0 =
        Inr (length (filter (\<lambda>j. core_id (done ! j) = core_id r \<and> physical_id (done ! j) = physical_id r)
                       [0..<length done]))"
    using found_loop_count [of "[0..<length done]" "done" ?st "physical_id r" "core_id r" 0]
    by simp
  have "topology_line buffer ?st = Inr (state_after (done @ [r]))"
    using line_event_CoreId [OF assms]
    by (simp add: topology_line_def f vector_at_def unique_of_snoc first_on_core_last
        state_after_def nth_append Let_def)
  then show ?thesis
    by (simp only: st)
qed

lemma topology_loop_records:
  assumes "map line_event lines = record_events rs"
  shows "topology_loop lines (state_after done) = Inr (state_after (done @ rs))"
  using assms
proof (induction rs arbitrary: lines "done")
  case Nil
  then show ?case by (simp add: record_events_def)
next
  case (Cons r rs)
  then obtain lp ls lc rest where l: "lines = lp # ls # lc # rest"
    and lp: "line_event lp = Inr (Processor (processor r))"
    and ls: "line_event ls = Inr (PhysicalId (physical_id r))"
    and lc: "line_event lc = Inr (CoreId (core_id r))"
    and rest: "map line_event rest = record_events rs"
    by (auto simp: record_events_def map_eq_Cons_conv)
  have "topology_loop rest (state_after (done @ [r])) = Inr (state_after ((done @ [r]) @ rs))"
    using rest by (rule Cons.IH)
  then show ?case
    by (simp add: l topology_line_Processor [OF lp] topology_line_PhysicalId [OF ls]
        topology_line_CoreId [OF lc])
qed

lemma first_on_core_list_all:
  "first_on_core rs i =
     list_all (\<lambda>j. (physical_id (rs ! j), core_id (rs ! j)) \<noteq> (physical_id (rs ! i), core_id (rs ! i))) [0..<i]"
  by (auto simp: first_on_core_def list_all_iff)

text \<open>
  C2: for every stream of processor records, read into empty vectors, \<^verbatim>\<open>get_topology\<close>
  appends the hardware thread of record \<open>i\<close> to the unique threads iff no earlier
  record has the same pair of physical id and core id; the unique threads are in
  record order; and \<^verbatim>\<open>physical_ids[i]\<close> is the physical id of record \<open>i\<close>. The witness
  is the stream of four processors on one socket with the core ids 0, 0, 1, 1, which
  gives \<^verbatim>\<open>physical_ids = [0,0,0,0]\<close> and \<^verbatim>\<open>unique_threads = [0,2]\<close>.
\<close>

theorem get_topology_unique_threads:
  assumes "record_stream lines rs"
  shows "get_topology (Some lines) [] [] stdout =
           (stdout,
            Inr (map (\<lambda>r. sint (physical_id r)) rs,
                 map (\<lambda>i. sint (processor (rs ! i))) (filter (first_on_core rs) [0..<length rs])))"
proof -
  have "map line_event (filter (\<lambda>b. line_event b \<noteq> Inr Other) lines) = record_events rs"
    using assms by (simp add: record_stream_def filter_map comp_def)
  then have "topology_loop (filter (\<lambda>b. line_event b \<noteq> Inr Other) lines) (state_after []) =
             Inr (state_after ([] @ rs))"
    by (rule topology_loop_records)
  then have "topology_loop lines (state_after []) = Inr (state_after rs)"
    by (simp add: topology_loop_skip_Other [of lines])
  then show ?thesis
    by (simp add: get_topology_def state_after_def unique_of_def)
qed

theorem get_topology_unique_threads_witness:
  "record_stream
     [''processor'' @ [CHR 0x09] @ '': 0'' @ [CHR 0x0A],
      ''model name'' @ [CHR 0x09] @ '': Example CPU'' @ [CHR 0x0A],
      ''physical id'' @ [CHR 0x09] @ '': 0'' @ [CHR 0x0A],
      ''siblings'' @ [CHR 0x09] @ '': 4'' @ [CHR 0x0A],
      ''core id'' @ [CHR 0x09] @ '': 0'' @ [CHR 0x0A],
      ''cpu cores'' @ [CHR 0x09] @ '': 2'' @ [CHR 0x0A],
      [CHR 0x0A],
      ''processor'' @ [CHR 0x09] @ '': 1'' @ [CHR 0x0A],
      ''model name'' @ [CHR 0x09] @ '': Example CPU'' @ [CHR 0x0A],
      ''physical id'' @ [CHR 0x09] @ '': 0'' @ [CHR 0x0A],
      ''siblings'' @ [CHR 0x09] @ '': 4'' @ [CHR 0x0A],
      ''core id'' @ [CHR 0x09] @ '': 0'' @ [CHR 0x0A],
      ''cpu cores'' @ [CHR 0x09] @ '': 2'' @ [CHR 0x0A],
      [CHR 0x0A],
      ''processor'' @ [CHR 0x09] @ '': 2'' @ [CHR 0x0A],
      ''model name'' @ [CHR 0x09] @ '': Example CPU'' @ [CHR 0x0A],
      ''physical id'' @ [CHR 0x09] @ '': 0'' @ [CHR 0x0A],
      ''siblings'' @ [CHR 0x09] @ '': 4'' @ [CHR 0x0A],
      ''core id'' @ [CHR 0x09] @ '': 1'' @ [CHR 0x0A],
      ''cpu cores'' @ [CHR 0x09] @ '': 2'' @ [CHR 0x0A],
      [CHR 0x0A],
      ''processor'' @ [CHR 0x09] @ '': 3'' @ [CHR 0x0A],
      ''model name'' @ [CHR 0x09] @ '': Example CPU'' @ [CHR 0x0A],
      ''physical id'' @ [CHR 0x09] @ '': 0'' @ [CHR 0x0A],
      ''siblings'' @ [CHR 0x09] @ '': 4'' @ [CHR 0x0A],
      ''core id'' @ [CHR 0x09] @ '': 1'' @ [CHR 0x0A],
      ''cpu cores'' @ [CHR 0x09] @ '': 2'' @ [CHR 0x0A],
      [CHR 0x0A]]
     [\<lparr>processor = 0, physical_id = 0, core_id = 0\<rparr>,
      \<lparr>processor = 1, physical_id = 0, core_id = 0\<rparr>,
      \<lparr>processor = 2, physical_id = 0, core_id = 1\<rparr>,
      \<lparr>processor = 3, physical_id = 0, core_id = 1\<rparr>] \<and>
   get_topology (Some
     [''processor'' @ [CHR 0x09] @ '': 0'' @ [CHR 0x0A],
      ''model name'' @ [CHR 0x09] @ '': Example CPU'' @ [CHR 0x0A],
      ''physical id'' @ [CHR 0x09] @ '': 0'' @ [CHR 0x0A],
      ''siblings'' @ [CHR 0x09] @ '': 4'' @ [CHR 0x0A],
      ''core id'' @ [CHR 0x09] @ '': 0'' @ [CHR 0x0A],
      ''cpu cores'' @ [CHR 0x09] @ '': 2'' @ [CHR 0x0A],
      [CHR 0x0A],
      ''processor'' @ [CHR 0x09] @ '': 1'' @ [CHR 0x0A],
      ''model name'' @ [CHR 0x09] @ '': Example CPU'' @ [CHR 0x0A],
      ''physical id'' @ [CHR 0x09] @ '': 0'' @ [CHR 0x0A],
      ''siblings'' @ [CHR 0x09] @ '': 4'' @ [CHR 0x0A],
      ''core id'' @ [CHR 0x09] @ '': 0'' @ [CHR 0x0A],
      ''cpu cores'' @ [CHR 0x09] @ '': 2'' @ [CHR 0x0A],
      [CHR 0x0A],
      ''processor'' @ [CHR 0x09] @ '': 2'' @ [CHR 0x0A],
      ''model name'' @ [CHR 0x09] @ '': Example CPU'' @ [CHR 0x0A],
      ''physical id'' @ [CHR 0x09] @ '': 0'' @ [CHR 0x0A],
      ''siblings'' @ [CHR 0x09] @ '': 4'' @ [CHR 0x0A],
      ''core id'' @ [CHR 0x09] @ '': 1'' @ [CHR 0x0A],
      ''cpu cores'' @ [CHR 0x09] @ '': 2'' @ [CHR 0x0A],
      [CHR 0x0A],
      ''processor'' @ [CHR 0x09] @ '': 3'' @ [CHR 0x0A],
      ''model name'' @ [CHR 0x09] @ '': Example CPU'' @ [CHR 0x0A],
      ''physical id'' @ [CHR 0x09] @ '': 0'' @ [CHR 0x0A],
      ''siblings'' @ [CHR 0x09] @ '': 4'' @ [CHR 0x0A],
      ''core id'' @ [CHR 0x09] @ '': 1'' @ [CHR 0x0A],
      ''cpu cores'' @ [CHR 0x09] @ '': 2'' @ [CHR 0x0A],
      [CHR 0x0A]]) [] [] [] =
     ([], Inr ([0, 0, 0, 0], [0, 2]))"
  using get_topology_unique_threads [of
     "[''processor'' @ [CHR 0x09] @ '': 0'' @ [CHR 0x0A],
      ''model name'' @ [CHR 0x09] @ '': Example CPU'' @ [CHR 0x0A],
      ''physical id'' @ [CHR 0x09] @ '': 0'' @ [CHR 0x0A],
      ''siblings'' @ [CHR 0x09] @ '': 4'' @ [CHR 0x0A],
      ''core id'' @ [CHR 0x09] @ '': 0'' @ [CHR 0x0A],
      ''cpu cores'' @ [CHR 0x09] @ '': 2'' @ [CHR 0x0A],
      [CHR 0x0A],
      ''processor'' @ [CHR 0x09] @ '': 1'' @ [CHR 0x0A],
      ''model name'' @ [CHR 0x09] @ '': Example CPU'' @ [CHR 0x0A],
      ''physical id'' @ [CHR 0x09] @ '': 0'' @ [CHR 0x0A],
      ''siblings'' @ [CHR 0x09] @ '': 4'' @ [CHR 0x0A],
      ''core id'' @ [CHR 0x09] @ '': 0'' @ [CHR 0x0A],
      ''cpu cores'' @ [CHR 0x09] @ '': 2'' @ [CHR 0x0A],
      [CHR 0x0A],
      ''processor'' @ [CHR 0x09] @ '': 2'' @ [CHR 0x0A],
      ''model name'' @ [CHR 0x09] @ '': Example CPU'' @ [CHR 0x0A],
      ''physical id'' @ [CHR 0x09] @ '': 0'' @ [CHR 0x0A],
      ''siblings'' @ [CHR 0x09] @ '': 4'' @ [CHR 0x0A],
      ''core id'' @ [CHR 0x09] @ '': 1'' @ [CHR 0x0A],
      ''cpu cores'' @ [CHR 0x09] @ '': 2'' @ [CHR 0x0A],
      [CHR 0x0A],
      ''processor'' @ [CHR 0x09] @ '': 3'' @ [CHR 0x0A],
      ''model name'' @ [CHR 0x09] @ '': Example CPU'' @ [CHR 0x0A],
      ''physical id'' @ [CHR 0x09] @ '': 0'' @ [CHR 0x0A],
      ''siblings'' @ [CHR 0x09] @ '': 4'' @ [CHR 0x0A],
      ''core id'' @ [CHR 0x09] @ '': 1'' @ [CHR 0x0A],
      ''cpu cores'' @ [CHR 0x09] @ '': 2'' @ [CHR 0x0A],
      [CHR 0x0A]]"
     "[\<lparr>processor = 0, physical_id = 0, core_id = 0\<rparr>,
      \<lparr>processor = 1, physical_id = 0, core_id = 0\<rparr>,
      \<lparr>processor = 2, physical_id = 0, core_id = 1\<rparr>,
      \<lparr>processor = 3, physical_id = 0, core_id = 1\<rparr>]" "[]"]
  by (simp add: record_stream_def record_events_def line_event_def parse_line_def parse_buffer_def
      strtoul_def isspace_def isdigit_def first_on_core_list_all)

text \<open>
  C3, as stated: when the CPU-info source cannot be opened the probe does not fail and
  reports a fallback topology. With a null file the function prints its message and
  then reads from the null stream: it returns no topology.
\<close>

theorem get_topology_null_file_counterexample:
  "get_topology None [] [] [] = ([''Error opening file.''], Inl NullPointer)"
  by (simp add: get_topology_def)

text \<open>
  C3, amended: when the CPU-info source cannot be opened, \<^verbatim>\<open>get_topology\<close> writes the
  diagnostic \<^verbatim>\<open>Error opening file.\<close> to the standard output, whatever the verbosity.
\<close>

theorem get_topology_null_file_diagnostic:
  "fst (get_topology None physical_ids' unique_threads' stdout) = stdout @ [''Error opening file.'']"
  by (simp add: get_topology_def)

section \<open>Properties of prefetching\<close>

text \<open>Rules to evaluate the bit length of a numeral, and with them the single-precision model.\<close>

lemma floorlog_numeral:
  "floorlog 2 (numeral k) = floorlog 2 (numeral k div 2) + 1"
  "floorlog 2 (Suc 0) = 1"
  "floorlog 2 1 = 1"
  "floorlog 2 0 = 0"
  by (subst compute_floorlog, simp)+

lemmas float_eval = floorlog_numeral float_of_nat_def float_quotient_def round_half_even_def Let_def
  float_div_def float_less_one_def buffer_usage_def

lemma float_quotient_self:
  assumes "0 < a"
  shows "float_quotient a a = 1"
  using assms by (simp add: float_quotient_def round_half_even_def Let_def)

lemma buffer_usage_equal: "\<not> float_less_one (buffer_usage m m)"
  by (simp add: buffer_usage_def float_div_def float_less_one_def float_quotient_self)

text \<open>
  Conversion to single precision is monotone, and the quotient of two numbers of which
  the first is not the smaller is at least 1: the test \<^verbatim>\<open>buffer_usage < 1.0\<close> succeeds
  only below the budget.
\<close>

lemma round_half_even_bounds: "q \<le> round_half_even q r m" "round_half_even q r m \<le> Suc q"
  by (simp_all add: round_half_even_def)

lemma round_half_even_mono: "r \<le> r' \<Longrightarrow> round_half_even q r m \<le> round_half_even q r' m"
  by (simp add: round_half_even_def)

lemma round_grid_mono:
  assumes "a \<le> b" and "0 < g"
  shows "round_half_even (a div g) (a mod g) g * g \<le> round_half_even (b div g) (b mod g) g * (g::nat)"
proof (cases "a div g = b div g")
  case True
  have ea: "b div g * g + a mod g = a"
    using div_mult_mod_eq [of a g] by (simp only: True)
  have eb: "b div g * g + b mod g = b"
    by (rule div_mult_mod_eq)
  have "a mod g \<le> b mod g"
    using assms(1) ea eb by linarith
  then show ?thesis
    using True by (simp add: round_half_even_mono)
next
  case False
  moreover have "a div g \<le> b div g"
    using assms(1) by (rule div_le_mono)
  ultimately have "Suc (a div g) \<le> b div g" by simp
  then have "round_half_even (a div g) (a mod g) g \<le> round_half_even (b div g) (b mod g) g"
    using round_half_even_bounds(2) [of "a div g" "a mod g" g]
      round_half_even_bounds(1) [of "b div g" "b mod g" g] by linarith
  then show ?thesis by (rule mult_le_mono1)
qed

lemma float_of_nat_upper:
  "float_of_nat a \<le> 2 ^ floorlog 2 a"
proof (cases "a = 0")
  case True
  then show ?thesis by (simp add: float_of_nat_def round_half_even_def floorlog_def)
next
  case False
  let ?k = "floorlog 2 a" and ?s = "floorlog 2 a - 24"
  have "a < 2 ^ ?k"
    using False floorlog_bounds [where b = 2 and x = a] by simp
  also have "(2::nat) ^ ?k = 2 ^ (?k - ?s) * 2 ^ ?s"
    by (simp add: power_add [symmetric])
  finally have "a div 2 ^ ?s < 2 ^ (?k - ?s)"
    by (simp add: less_mult_imp_div_less)
  then have "round_half_even (a div 2 ^ ?s) (a mod 2 ^ ?s) (2 ^ ?s) \<le> 2 ^ (?k - ?s)"
    using round_half_even_bounds(2) [of "a div 2 ^ ?s" "a mod 2 ^ ?s" "2 ^ ?s"] by linarith
  then have "float_of_nat a \<le> 2 ^ (?k - ?s) * 2 ^ ?s"
    unfolding float_of_nat_def Let_def by (rule mult_le_mono1)
  then show ?thesis
    by (simp add: power_add [symmetric])
qed

lemma float_of_nat_lower:
  assumes "0 < b"
  shows "2 ^ (floorlog 2 b - 1) \<le> float_of_nat b"
proof -
  let ?k = "floorlog 2 b" and ?s = "floorlog 2 b - 24"
  have k: "0 < ?k"
    using assms by (simp add: floorlog_def)
  have "(2::nat) ^ (?k - 1 - ?s) * 2 ^ ?s = 2 ^ (?k - 1)"
    using k by (simp add: power_add [symmetric])
  moreover have "2 ^ (?k - 1) \<le> b"
    using assms floorlog_bounds [where b = 2 and x = b] by simp
  ultimately have "2 ^ (?k - 1 - ?s) * 2 ^ ?s \<le> b" by simp
  then have "2 ^ (?k - 1 - ?s) \<le> b div 2 ^ ?s"
    by (simp add: less_eq_div_iff_mult_less_eq)
  then have "2 ^ (?k - 1 - ?s) \<le> round_half_even (b div 2 ^ ?s) (b mod 2 ^ ?s) (2 ^ ?s)"
    using round_half_even_bounds(1) [of "b div 2 ^ ?s" "b mod 2 ^ ?s" "2 ^ ?s"] by linarith
  then have "2 ^ (?k - 1 - ?s) * 2 ^ ?s \<le> float_of_nat b"
    unfolding float_of_nat_def Let_def by (rule mult_le_mono1)
  then show ?thesis
    using k by (simp add: power_add [symmetric])
qed

lemma float_of_nat_mono:
  assumes "a \<le> b"
  shows "float_of_nat a \<le> float_of_nat b"
proof (cases "floorlog 2 a = floorlog 2 b")
  case True
  then show ?thesis
    unfolding float_of_nat_def Let_def
    using round_grid_mono [OF assms, of "2 ^ (floorlog 2 b - 24)"] by simp
next
  case False
  then have lt: "floorlog 2 a < floorlog 2 b"
    using floorlog_mono [OF assms, of 2] by simp
  then have b: "0 < b"
    by (cases "b = 0") (simp_all add: floorlog_def)
  have "float_of_nat a \<le> 2 ^ floorlog 2 a"
    by (rule float_of_nat_upper)
  also have "\<dots> \<le> (2::nat) ^ (floorlog 2 b - 1)"
    using lt by (intro power_increasing) simp_all
  also have "\<dots> \<le> float_of_nat b"
    using b by (rule float_of_nat_lower)
  finally show ?thesis .
qed


lemma scaled_quotient_ge_one:
  assumes y: "0 < y" and le: "y * 2 ^ en \<le> (x::nat)"
  shows "1 \<le> (let s = int en - int p;
                  n = (if s < 0 then x * 2 ^ nat (- s) else x);
                  m = (if s < 0 then y else y * 2 ^ nat s);
                  q = round_half_even (n div m) (n mod m) m
              in if s < 0 then real q / 2 ^ nat (- s) else real q * 2 ^ nat s)"
proof (cases "en < p")
  case True
  let ?t = "p - en"
  have t: "nat (int p - int en) = ?t" using True by simp
  have "y * 2 ^ p = y * 2 ^ en * 2 ^ ?t"
    using True by (simp add: power_add [symmetric])
  also have "\<dots> \<le> x * 2 ^ ?t"
    using le by (rule mult_le_mono1)
  finally have "2 ^ p * y \<le> x * 2 ^ ?t" by (simp add: mult.commute)
  then have "2 ^ p \<le> x * 2 ^ ?t div y"
    using y by (simp add: less_eq_div_iff_mult_less_eq)
  then have q: "2 ^ p \<le> round_half_even (x * 2 ^ ?t div y) (x * 2 ^ ?t mod y) y"
    using round_half_even_bounds(1) [of "x * 2 ^ ?t div y" "x * 2 ^ ?t mod y" y] by linarith
  have "(2::real) ^ ?t \<le> 2 ^ p"
    by (rule power_increasing) simp_all
  also have "\<dots> = real (2 ^ p)"
    by simp
  also have "\<dots> \<le> real (round_half_even (x * 2 ^ ?t div y) (x * 2 ^ ?t mod y) y)"
    using q by (rule of_nat_mono)
  finally have "1 \<le> real (round_half_even (x * 2 ^ ?t div y) (x * 2 ^ ?t mod y) y) / 2 ^ ?t"
    by (simp add: le_divide_eq)
  then show ?thesis
    using True by (simp add: Let_def t)
next
  case False
  let ?t = "en - p"
  have t: "nat (int en - int p) = ?t" using False by simp
  have "(2::nat) ^ p * 2 ^ ?t = 2 ^ en"
    using False by (simp add: power_add [symmetric])
  then have "2 ^ p * (y * 2 ^ ?t) = y * 2 ^ en"
    by (simp only: mult.left_commute [of _ y])
  with le have "2 ^ p * (y * 2 ^ ?t) \<le> x" by (simp only:)
  then have "2 ^ p \<le> x div (y * 2 ^ ?t)"
    using y by (simp add: less_eq_div_iff_mult_less_eq)
  then have q: "2 ^ p \<le> round_half_even (x div (y * 2 ^ ?t)) (x mod (y * 2 ^ ?t)) (y * 2 ^ ?t)"
    using round_half_even_bounds(1) [of "x div (y * 2 ^ ?t)" "x mod (y * 2 ^ ?t)" "y * 2 ^ ?t"]
    by linarith
  moreover have "(1::nat) \<le> 2 ^ p" by simp
  ultimately have "1 \<le> round_half_even (x div (y * 2 ^ ?t)) (x mod (y * 2 ^ ?t)) (y * 2 ^ ?t)"
    by (rule order_trans [rotated])
  moreover have "(1::nat) \<le> 2 ^ ?t" by simp
  ultimately have "1 * 1 \<le> round_half_even (x div (y * 2 ^ ?t)) (x mod (y * 2 ^ ?t)) (y * 2 ^ ?t) * 2 ^ ?t"
    by (rule mult_le_mono)
  then have "real 1 \<le> real (round_half_even (x div (y * 2 ^ ?t)) (x mod (y * 2 ^ ?t)) (y * 2 ^ ?t) * 2 ^ ?t)"
    by (simp only: mult_1 of_nat_le_iff)
  then show ?thesis
    using False by (simp add: Let_def t)
qed


lemma float_quotient_ge_one:
  assumes y: "0 < y" and le: "y \<le> x"
  shows "1 \<le> float_quotient x y"
proof -
  let ?kx = "floorlog 2 x" and ?ky = "floorlog 2 y"
  let ?dn = "?kx - ?ky"
  have x: "0 < x" using y le by simp
  have k: "?ky \<le> ?kx" using le by (rule floorlog_mono)
  then have d: "int ?kx - int ?ky = int ?dn" by simp
  let ?test = "y * 2 ^ ?dn \<le> x"
  let ?en = "if ?test then ?dn else ?dn - 1"
  have dn: "0 < ?dn" if "\<not> ?test"
    using that le by (cases "?dn = 0") simp_all
  have e: "(if ?test then int ?dn else int ?dn - 1) = int ?en"
    using dn by auto
  have A: "y * 2 ^ ?en \<le> x"
  proof (cases ?test)
    case True
    then show ?thesis by simp
  next
    case False
    have "y < 2 ^ ?ky"
      using y floorlog_bounds [where b = 2 and x = y] by simp
    then have "y * 2 ^ (?dn - 1) < 2 ^ ?ky * 2 ^ (?dn - 1)"
      by simp
    also have "\<dots> = (2::nat) ^ (?kx - 1)"
      using dn [OF False] k by (simp add: power_add [symmetric])
    also have "\<dots> \<le> x"
      using x floorlog_bounds [where b = 2 and x = x] by simp
    finally show ?thesis
      using False by simp
  qed
  have "float_quotient x y =
          (let s = int ?en - int 23;
               n = (if s < 0 then x * 2 ^ nat (- s) else x);
               m = (if s < 0 then y else y * 2 ^ nat s);
               q = round_half_even (n div m) (n mod m) m
           in if s < 0 then real q / 2 ^ nat (- s) else real q * 2 ^ nat s)"
    using x unfolding float_quotient_def d
    by (simp only: e [symmetric] nat_int of_nat_less_0_iff if_False of_nat_numeral) simp
  then show ?thesis
    using scaled_quotient_ge_one [OF y A, of 23] by (simp only:)
qed

lemma buffer_usage_less_one:
  assumes "float_less_one (buffer_usage mem_required memBudget)"
  shows "mem_required < memBudget"
proof (rule ccontr)
  assume "\<not> mem_required < memBudget"
  then have "unat memBudget \<le> unat mem_required"
    by (simp add: word_less_nat_alt)
  then have m: "float_of_nat (unat memBudget) \<le> float_of_nat (unat mem_required)"
    by (rule float_of_nat_mono)
  show False
  proof (cases "float_of_nat (unat memBudget) = 0")
    case True
    with assms show False
      by (simp add: buffer_usage_def float_div_def float_less_one_def split: if_splits)
  next
    case False
    then have "1 \<le> float_quotient (float_of_nat (unat mem_required)) (float_of_nat (unat memBudget))"
      using m by (intro float_quotient_ge_one) simp_all
    with assms False show False
      by (simp add: buffer_usage_def float_div_def float_less_one_def)
  qed
qed

lemma fold_prefetched:
  "fold (\<lambda>i prefetched. if P i then prefetched @ [i] else prefetched) xs acc = acc @ filter P xs"
  by (induction xs arbitrary: acc) simp_all

lemma cudaPrefetchInputs_filter:
  "cudaPrefetchInputs memBudget numInputs mem_required splits =
     (if float_less_one (buffer_usage mem_required memBudget)
      then filter (\<lambda>i. splits ! i = Split_ROWS) [0..<numInputs] else [])"
  by (simp add: cudaPrefetchInputs_def fold_prefetched)

text \<open>
  C5, as stated: the row-split inputs are prefetched iff \<^verbatim>\<open>memRequired <= budget\<close>. With
  \<^verbatim>\<open>mem_required = 1024\<close> and a budget of 1024 bytes the quotient is 1.0, the test
  \<^verbatim>\<open>buffer_usage < 1.0\<close> fails and the one row-split input is not prefetched.
\<close>

theorem cudaPrefetchInputs_equal_counterexample:
  "cudaPrefetchInputs 1024 1 1024 [Split_ROWS] = [] \<and> (1024 :: size_t) \<le> 1024"
  by (simp add: cudaPrefetchInputs_def float_eval)

text \<open>
  The converse fails: a requirement below the budget may round to the budget. With
  \<open>2 ^ 24\<close> bytes required and a budget of \<open>2 ^ 24 + 1\<close> bytes both convert to
  \<open>2 ^ 24\<close>, and nothing is prefetched.
\<close>

lemma cudaPrefetchInputs_rounding:
  "cudaPrefetchInputs 16777217 1 16777216 [Split_ROWS] = [] \<and> (16777216 :: size_t) < 16777217"
  by (simp add: cudaPrefetchInputs_def float_eval)

text \<open>
  C5, amended: the inputs whose split is \<^verbatim>\<open>ROWS\<close> are prefetched, in index order, iff
  the single-precision quotient of \<^verbatim>\<open>mem_required\<close> and the memory budget is strictly
  below 1.0. That is the case only when \<^verbatim>\<open>mem_required\<close> is less than the budget, so
  nothing is prefetched when \<^verbatim>\<open>mem_required\<close> equals the budget. Only inputs whose
  split is \<^verbatim>\<open>ROWS\<close> are ever prefetched, those with \<^verbatim>\<open>NONE\<close> never.
\<close>

theorem cudaPrefetchInputs_strict:
  "cudaPrefetchInputs memBudget numInputs mem_required splits =
     (if float_less_one (buffer_usage mem_required memBudget)
      then filter (\<lambda>i. splits ! i = Split_ROWS) [0..<numInputs] else []) \<and>
   (cudaPrefetchInputs memBudget numInputs mem_required splits \<noteq> [] \<longrightarrow> mem_required < memBudget) \<and>
   (mem_required = memBudget \<longrightarrow> cudaPrefetchInputs memBudget numInputs mem_required splits = []) \<and>
   (\<forall>i\<in>set (cudaPrefetchInputs memBudget numInputs mem_required splits).
      i < numInputs \<and> splits ! i = Split_ROWS)"
  using buffer_usage_less_one [of mem_required memBudget]
  by (auto simp add: cudaPrefetchInputs_filter buffer_usage_equal)

theorem cudaPrefetchInputs_strict_witness:
  "cudaPrefetchInputs 1024 3 1023 [Split_ROWS, Split_NONE, Split_ROWS] = [0, 2] \<and>
   cudaPrefetchInputs 2048 3 2048 [Split_ROWS, Split_NONE, Split_ROWS] = []"
  using cudaPrefetchInputs_strict [of 1024 3 1023 "[Split_ROWS, Split_NONE, Split_ROWS]"]
    cudaPrefetchInputs_strict [of 2048 3 2048 "[Split_ROWS, Split_NONE, Split_ROWS]"]
  by (simp add: float_eval upt_rec)

section \<open>Properties of the CSR generator\<close>

lemma generate_loop_append:
  "generate_loop c (xs @ ys) st =
     (case generate_loop c xs st of Inl e \<Rightarrow> Inl e | Inr st' \<Rightarrow> generate_loop c ys st')"
  by (induction xs arbitrary: st) (simp_all split: sum.splits)

lemma generate_loop_single: "generate_loop c [v] st = generate_body c v st"
  by (simp split: sum.splits)

lemma numNonZeros_fold:
  "fold (\<lambda>v n. if v \<noteq> 0 then n + 1 else n) xs k = k + length (nonzeros xs)"
  by (induction xs arbitrary: k) (simp_all add: nonzeros_def)

lemma nonzeros_snoc: "nonzeros (xs @ [v]) = (if v \<noteq> 0 then nonzeros xs @ [v] else nonzeros xs)"
  by (simp add: nonzeros_def)

lemma nonzero_cols_snoc:
  "nonzero_cols c (xs @ [v]) =
     (if v \<noteq> 0 then nonzero_cols c xs @ [length xs mod c] else nonzero_cols c xs)"
proof -
  have "filter (\<lambda>j. (xs @ [v]) ! j \<noteq> 0) [0..<length xs] = filter (\<lambda>j. xs ! j \<noteq> 0) [0..<length xs]"
    by (rule filter_cong) (simp_all add: nth_append)
  then show ?thesis
    by (simp add: nonzero_cols_def)
qed

lemma row_offsets_snoc_same:
  assumes "rows * c \<le> length xs"
  shows "row_offsets c rows (xs @ [v]) = row_offsets c rows xs"
proof -
  have "i * c \<le> length xs" if "i < rows + 1" for i
  proof -
    from that have "i \<le> rows" by simp
    then have "i * c \<le> rows * c" by (rule mult_le_mono1)
    with assms show ?thesis by linarith
  qed
  then show ?thesis
    by (auto simp: row_offsets_def)
qed

lemma row_offsets_Suc:
  "row_offsets c (Suc rows) xs = row_offsets c rows xs @ [length (nonzeros (take (Suc rows * c) xs))]"
  by (simp add: row_offsets_def)

lemma store_replicate:
  "store (map Some xs @ replicate (Suc k) None) (length xs) v = Inr (map Some (xs @ [v]) @ replicate k None)"
  by (simp add: store_def list_update_append)


text \<open>The state of the second loop when it has read the cells \<open>xs\<close>.\<close>

lemma generate_loop_prefix:
  fixes es :: "('vt::zero) list"
  assumes c: "0 < c" and len: "length es = n * c"
  shows "k \<le> length es \<Longrightarrow>
         generate_loop c (take k es)
           \<lparr>pos = 0, colIdx = 0, rowIdx = 0,
            vals = replicate (length (nonzeros es)) None,
            colIdxs = replicate (length (nonzeros es)) None,
            rowOffsets = (replicate (n + 1) None)[0 := Some 0]\<rparr> =
         Inr \<lparr>pos = length (nonzeros (take k es)), colIdx = k mod c, rowIdx = k div c,
              vals = map Some (nonzeros (take k es)) @
                       replicate (length (nonzeros es) - length (nonzeros (take k es))) None,
              colIdxs = map Some (nonzero_cols c (take k es)) @
                       replicate (length (nonzeros es) - length (nonzeros (take k es))) None,
              rowOffsets = map Some (row_offsets c (k div c) (take k es)) @
                       replicate (n - k div c) None\<rparr>"
proof (induction k)
  case 0
  show ?case
    by (simp add: nonzeros_def nonzero_cols_def row_offsets_def)
next
  case (Suc k)
  let ?xs = "take k es" and ?v = "es ! k"
  let ?N = "length (nonzeros es)"
  from Suc.prems have k: "k < length es" by simp
  then have t: "take (Suc k) es = ?xs @ [?v]"
    by (simp add: take_Suc_conv_app_nth)
  have lxs: "length ?xs = k" using k by simp
  have es: "es = ?xs @ ?v # drop (Suc k) es"
    using k by (simp add: Cons_nth_drop_Suc)
  have "nonzeros es = nonzeros ?xs @ nonzeros (?v # drop (Suc k) es)"
    by (subst es) (simp add: nonzeros_def)
  then have N: "?v \<noteq> 0 \<Longrightarrow> ?N - length (nonzeros ?xs) = Suc (?N - Suc (length (nonzeros ?xs)))"
    by (simp add: nonzeros_def)
  have kdiv: "k div c < n"
    using k len c by (simp add: less_mult_imp_div_less)
  then have rep: "replicate (n - k div c) None = None # replicate (n - Suc (k div c)) (None :: nat option)"
    by (cases "n - k div c") simp_all
  have lro: "length (row_offsets c (k div c) ?xs) = Suc (k div c)"
    by (simp add: row_offsets_def)
  have mn: "min (length es) k = k" using k by simp
  have ro_same: "row_offsets c (k div c) (?xs @ [w]) = row_offsets c (k div c) ?xs" for w
    by (rule row_offsets_snoc_same) (simp only: lxs div_times_less_eq_dividend)
  have full: "Suc (k div c) * c = Suc k" if a: "Suc (k mod c) = c"
  proof -
    from a have "k div c * c + c = k div c * c + Suc (k mod c)" by simp
    also have "\<dots> = Suc (k div c * c + k mod c)" by simp
    also have "\<dots> = Suc k" by (simp only: div_mult_mod_eq)
    finally show ?thesis by simp
  qed
  have ncols: "length (nonzero_cols c ?xs) = length (nonzeros ?xs)"
  proof -
    have "map ((!) ?xs) (filter (\<lambda>j. ?xs ! j \<noteq> 0) [0..<length ?xs]) =
          filter (\<lambda>v. v \<noteq> 0) (map ((!) ?xs) [0..<length ?xs])"
      by (simp add: filter_map comp_def)
    then have "length (filter (\<lambda>j. ?xs ! j \<noteq> 0) [0..<length ?xs]) = length (filter (\<lambda>v. v \<noteq> 0) ?xs)"
      by (metis length_map map_nth)
    then show ?thesis
      by (simp add: nonzero_cols_def nonzeros_def)
  qed
  let ?st0 = "\<lparr>pos = 0, colIdx = 0, rowIdx = 0,
            vals = replicate ?N None, colIdxs = replicate ?N None,
            rowOffsets = (replicate (n + 1) None)[0 := Some 0]\<rparr> :: 'vt generate_state"
  let ?sk = "\<lparr>pos = length (nonzeros ?xs), colIdx = k mod c, rowIdx = k div c,
              vals = map Some (nonzeros ?xs) @ replicate (?N - length (nonzeros ?xs)) None,
              colIdxs = map Some (nonzero_cols c ?xs) @ replicate (?N - length (nonzeros ?xs)) None,
              rowOffsets = map Some (row_offsets c (k div c) ?xs) @ replicate (n - k div c) None\<rparr>"
  have ih: "generate_loop c ?xs ?st0 = Inr ?sk"
    using Suc by simp
  have step: "generate_loop c (take (Suc k) es) ?st0 = generate_body c ?v ?sk"
    by (simp only: t generate_loop_append ih sum.case generate_loop_single)
  have sv: "store (map Some (nonzeros ?xs) @ replicate (?N - length (nonzeros ?xs)) None)
              (length (nonzeros ?xs)) ?v =
            Inr (map Some (nonzeros ?xs @ [?v]) @ replicate (?N - Suc (length (nonzeros ?xs))) None)"
    if "?v \<noteq> 0"
    by (simp only: N [OF that] store_replicate)
  have sc: "store (map Some (nonzero_cols c ?xs) @ replicate (?N - length (nonzeros ?xs)) None)
              (length (nonzeros ?xs)) (k mod c) =
            Inr (map Some (nonzero_cols c ?xs @ [k mod c]) @ replicate (?N - Suc (length (nonzeros ?xs))) None)"
    if "?v \<noteq> 0"
    using store_replicate [of "nonzero_cols c ?xs" "?N - Suc (length (nonzeros ?xs))" "k mod c"]
    by (simp only: N [OF that] ncols)
  have sr: "store (map Some (row_offsets c (k div c) ?xs) @ replicate (n - k div c) None)
              (Suc (k div c)) p =
            Inr (map Some (row_offsets c (k div c) ?xs @ [p]) @ replicate (n - Suc (k div c)) None)" for p
    using store_replicate [of "row_offsets c (k div c) ?xs" "n - Suc (k div c)" p]
    by (simp only: lro rep replicate_Suc)
  show ?case
  proof (cases "Suc (k mod c) = c")
    case True
    have ro: "row_offsets c (Suc (k div c)) (?xs @ [w]) =
            row_offsets c (k div c) ?xs @ [length (nonzeros (?xs @ [w]))]" for w
      using lxs by (simp only: row_offsets_Suc ro_same full [OF True]) simp
    show ?thesis
      unfolding step
      using True c
      by (cases "?v = 0")
         (simp_all add: generate_body_def sv sc sr t nonzeros_snoc nonzero_cols_snoc lxs
            mod_Suc div_Suc ro mn Let_def)
  next
    case False
    show ?thesis
      unfolding step
      using False c
      by (cases "?v = 0")
         (simp_all add: generate_body_def sv sc t nonzeros_snoc nonzero_cols_snoc lxs
            mod_Suc div_Suc ro_same mn Let_def)
  qed
qed


text \<open>
  For a vector of elements that is not empty the generator builds the CSR
  representation of the row-major cells: the values and column indices of the non-zero
  cells in order, and a row-offset array that is complete.
\<close>

lemma generate_CSRMatrix_nonempty:
  fixes elements :: "('vt::zero) list"
  assumes "0 < n" and "length elements mod n = 0" and "elements \<noteq> []"
  shows "generate_CSRMatrix n elements =
           Inr \<lparr>csr_numRows = n, csr_numCols = length elements div n,
                csr_values = map Some (nonzeros elements),
                csr_colIdxs = map Some (nonzero_cols (length elements div n) elements),
                csr_rowOffsets = map Some (row_offsets (length elements div n) n elements)\<rparr>"
proof -
  let ?c = "length elements div n"
  have len: "length elements = n * ?c"
    using assms(2) by auto
  have c: "0 < ?c"
    using assms(3) len by (cases "?c") simp_all
  have "m div k = n \<and> m mod k = 0" if "m = n * k" and "0 < k" for m k :: nat
    using that by simp
  from this [OF len c] have d: "length elements div ?c = n" "length elements mod ?c = 0"
    by simp_all
  have "generate_loop ?c (take (length elements) elements)
           \<lparr>pos = 0, colIdx = 0, rowIdx = 0,
            vals = replicate (length (nonzeros elements)) None,
            colIdxs = replicate (length (nonzeros elements)) None,
            rowOffsets = (replicate (n + 1) None)[0 := Some 0]\<rparr> =
         Inr \<lparr>pos = length (nonzeros (take (length elements) elements)),
              colIdx = length elements mod ?c, rowIdx = length elements div ?c,
              vals = map Some (nonzeros (take (length elements) elements)) @
                       replicate (length (nonzeros elements) -
                                  length (nonzeros (take (length elements) elements))) None,
              colIdxs = map Some (nonzero_cols ?c (take (length elements) elements)) @
                       replicate (length (nonzeros elements) -
                                  length (nonzeros (take (length elements) elements))) None,
              rowOffsets = map Some (row_offsets ?c (length elements div ?c)
                                       (take (length elements) elements)) @
                       replicate (n - length elements div ?c) None\<rparr>"
    using c len by (rule generate_loop_prefix) simp
  then have loop: "generate_loop ?c elements
           \<lparr>pos = 0, colIdx = 0, rowIdx = 0,
            vals = replicate (length (nonzeros elements)) None,
            colIdxs = replicate (length (nonzeros elements)) None,
            rowOffsets = (replicate (n + 1) None)[0 := Some 0]\<rparr> =
         Inr \<lparr>pos = length (nonzeros elements), colIdx = 0, rowIdx = n,
              vals = map Some (nonzeros elements),
              colIdxs = map Some (nonzero_cols ?c elements),
              rowOffsets = map Some (row_offsets ?c n elements)\<rparr>"
    by (simp only: take_all [OF order_refl] d diff_self_eq_0 replicate_0 append_Nil2)
  have st: "store (replicate (n + 1) None) 0 (0::nat) = Inr ((replicate (n + 1) None)[0 := Some 0])"
    by (simp add: store_def)
  show ?thesis
    using assms(1,2)
    by (simp only: generate_CSRMatrix_def Let_def numNonZeros_fold create_CSRMatrix_def
        CSRMatrix.simps st loop sum.case generate_state.simps add_0 if_False)
      simp
qed

lemma row_offsets_nth:
  assumes "i \<le> rows"
  shows "row_offsets c rows xs ! i = length (nonzeros (take (i * c) xs))"
proof -
  have "i < length [0..<rows + 1]" using assms by simp
  then have "map (\<lambda>i. length (nonzeros (take (i * c) xs))) [0..<rows + 1] ! i =
             length (nonzeros (take ([0..<rows + 1] ! i * c) xs))"
    by (rule nth_map)
  moreover have "[0..<rows + 1] ! i = 0 + i"
    by (rule nth_upt) (use assms in simp)
  ultimately show ?thesis
    by (simp add: row_offsets_def)
qed

lemma row_offsets_mono:
  assumes "i \<le> j" and "j \<le> rows"
  shows "row_offsets c rows xs ! i \<le> row_offsets c rows xs ! j"
proof -
  have "j * c = i * c + (j - i) * c"
    using assms(1) by (simp add: algebra_simps)
  then have "take (j * c) xs = take (i * c) xs @ take ((j - i) * c) (drop (i * c) xs)"
    by (simp only: take_add)
  then have "length (nonzeros (take (i * c) xs)) \<le> length (nonzeros (take (j * c) xs))"
    by (simp add: nonzeros_def)
  then show ?thesis
    using assms by (simp add: row_offsets_nth)
qed

text \<open>
  The invariants of the result, for a vector of elements that is not empty: the row
  offsets start at 0, do not decrease and end with the number of non-zero elements.
\<close>

lemma generate_CSRMatrix_invariants:
  fixes elements :: "('vt::zero) list"
  assumes "0 < n" and "length elements mod n = 0" and "elements \<noteq> []"
  shows "\<exists>m. generate_CSRMatrix n elements = Inr m \<and>
           csr_rowOffsets m = map Some (row_offsets (csr_numCols m) n elements) \<and>
           row_offsets (csr_numCols m) n elements ! 0 = 0 \<and>
           (\<forall>i j. i \<le> j \<and> j \<le> n \<longrightarrow>
              row_offsets (csr_numCols m) n elements ! i \<le> row_offsets (csr_numCols m) n elements ! j) \<and>
           row_offsets (csr_numCols m) n elements ! n = length (nonzeros elements)"
proof -
  have "length elements = n * (length elements div n)"
    using assms(2) by auto
  then have "take (n * (length elements div n)) elements = elements"
    by simp
  then have "row_offsets (length elements div n) n elements ! n = length (nonzeros elements)"
    by (simp add: row_offsets_nth)
  moreover have "row_offsets (length elements div n) n elements ! 0 = 0"
    by (simp add: row_offsets_nth nonzeros_def)
  ultimately show ?thesis
    using generate_CSRMatrix_nonempty [OF assms] row_offsets_mono [of _ _ n "length elements div n" elements]
    by simp
qed

text \<open>
  Without elements the loop body never runs: whatever the number of rows, only the
  first row offset is written.
\<close>

lemma generate_CSRMatrix_no_elements:
  assumes "0 < n"
  shows "generate_CSRMatrix n ([] :: ('vt::zero) list) =
           Inr \<lparr>csr_numRows = n, csr_numCols = 0, csr_values = [], csr_colIdxs = [],
                csr_rowOffsets = Some 0 # replicate n None\<rparr>"
  using assms by (simp add: generate_CSRMatrix_def create_CSRMatrix_def store_def)

text \<open>
  C10: for every \<^verbatim>\<open>numRows > 0\<close> and vector of elements whose length is divisible by
  \<^verbatim>\<open>numRows\<close>, the generated CSR matrix has \<^verbatim>\<open>rowOffsets[numRows]\<close> equal to the number
  of non-zero elements. The empty vector is divisible by every number of rows; for it
  the loop body never runs, and of the row offsets of the new matrix, which is
  created without zero-initialization, only the first is written. With one row,
  \<^verbatim>\<open>rowOffsets[1]\<close> is left as allocated.
\<close>

theorem generate_CSRMatrix_empty_rowOffsets:
  "generate_CSRMatrix 1 ([] :: int list) =
     Inr \<lparr>csr_numRows = 1, csr_numCols = 0, csr_values = [], csr_colIdxs = [],
          csr_rowOffsets = [Some 0, None]\<rparr>"
  by (simp add: generate_CSRMatrix_def create_CSRMatrix_def store_def)

end
